theory Spec2Isabelle
  imports Complex_Main "HOL-Library.Word" "HOL-Library.Signed_Division" "HOL-Library.Multiset"
begin

unbundle bit_operations_syntax

section \<open>Binary floating point\<close>

text \<open>
  The ray tracer computes on C++ \<^verbatim>\<open>float\<close>, IEEE 754 binary32 with rounding to nearest,
  ties to even. A value of \<open>flt\<close> is what such a variable holds: a real number, one of the
  two infinities, or NaN. Every operation computes the exact real result and rounds it to
  the format, so it overflows to an infinity, underflows into the subnormal range or to
  zero, and yields NaN as the hardware does. Each operation of the source is rounded on its
  own: no intermediate result is kept in a wider format and no product is fused with a sum.

  Zero has no sign in \<open>flt\<close>. The sign of a zero shows only in a division by it, and every
  divisor in the code modelled here is a sum of squares, a square root, a product of
  those, or a positive constant, whose zero is the positive one; so \<open>x / 0\<close> is \<open>+\<infinity>\<close> for
  positive \<open>x\<close>, \<open>-\<infinity>\<close> for negative \<open>x\<close> and NaN for \<open>0 / 0\<close>.
\<close>

datatype flt = NaN | MInf | Fin real | PInf

text \<open>
  \<open>\<lfloor>log\<^sub>2 a\<rfloor>\<close> for \<open>a \<ge> 1\<close> and for \<open>0 < a < 1\<close>, by repeated halving and doubling.
\<close>

function log2_up :: "real \<Rightarrow> int" where
  "log2_up a = (if 2 \<le> a then log2_up (a / 2) + 1 else 0)"
  by pat_completeness auto
termination
proof (relation "measure (\<lambda>a. nat \<lfloor>a\<rfloor>)")
  show "wf (measure (\<lambda>a. nat \<lfloor>a::real\<rfloor>))"
    by simp
next
  fix a :: real
  assume "2 \<le> a"
  then have "a / 2 \<le> a - 1"
    by simp
  then have "\<lfloor>a / 2\<rfloor> \<le> \<lfloor>a - 1\<rfloor>"
    by (rule floor_mono)
  then have "\<lfloor>a / 2\<rfloor> < \<lfloor>a\<rfloor>"
    by simp
  moreover have "0 < \<lfloor>a\<rfloor>"
    using \<open>2 \<le> a\<close> by simp
  ultimately show "(a / 2, a) \<in> measure (\<lambda>a. nat \<lfloor>a\<rfloor>)"
    by simp
qed

function log2_down :: "real \<Rightarrow> int" where
  "log2_down a = (if 0 < a \<and> a < 1 then log2_down (2 * a) - 1 else 0)"
  by pat_completeness auto
termination
proof (relation "measure (\<lambda>a. nat \<lceil>1 / a\<rceil>)")
  show "wf (measure (\<lambda>a. nat \<lceil>1 / a::real\<rceil>))"
    by simp
next
  fix a :: real
  assume a: "0 < a \<and> a < 1"
  then have "1 < 1 / a"
    by simp
  then have c: "2 \<le> \<lceil>1 / a\<rceil>"
    by linarith
  have "1 / (2 * a) = (1 / a) / 2"
    by simp
  also have "\<dots> \<le> of_int \<lceil>1 / a\<rceil> / 2"
    by (simp add: divide_right_mono)
  also have "\<dots> \<le> of_int (\<lceil>1 / a\<rceil> - 1)"
    using c by simp
  finally have "\<lceil>1 / (2 * a)\<rceil> \<le> \<lceil>1 / a\<rceil> - 1"
    by (rule ceiling_le)
  then show "(2 * a, a) \<in> measure (\<lambda>a. nat \<lceil>1 / a\<rceil>)"
    using c a by simp
qed

declare log2_up.simps [simp del]

declare log2_down.simps [simp del]

definition pow2 :: "int \<Rightarrow> real" where
  "pow2 e = (if 0 \<le> e then 2 ^ nat e else 1 / 2 ^ nat (- e))"

text \<open>The nearest integer, a tie going to the even one.\<close>

definition round_even :: "real \<Rightarrow> int" where
  "round_even y =
     (let f = \<lfloor>y\<rfloor>
      in if y - of_int f < 1 / 2 then f
         else if 1 / 2 < y - of_int f then f + 1
         else if even f then f else f + 1)"

text \<open>
  Rounding a real to the binary format with \<open>p\<close> significant bits and exponents from
  \<open>emin\<close> to \<open>emax\<close>: the unit in the last place belongs to the binade of \<open>\<bar>x\<bar>\<close>, or to the
  subnormal range below \<open>2 ^ emin\<close>; a result of \<open>2 ^ (emax + 1)\<close> or more is an infinity.
\<close>

definition round_to :: "nat \<Rightarrow> int \<Rightarrow> int \<Rightarrow> real \<Rightarrow> flt" where
  "round_to p emin emax x =
     (if x = 0 then Fin 0
      else
        let a = \<bar>x\<bar>;
            e = (if a < pow2 emin then emin else if 1 \<le> a then log2_up a else log2_down a);
            ulp = pow2 (e - int p + 1);
            v = of_int (round_even (a / ulp)) * ulp
        in if pow2 (emax + 1) \<le> v then (if 0 < x then PInf else MInf)
           else Fin (if 0 < x then v else - v))"

text \<open>\<^verbatim>\<open>float\<close> is binary32, \<^verbatim>\<open>double\<close> is binary64.\<close>

definition round32 :: "real \<Rightarrow> flt" where
  "round32 x = round_to 24 (- 126) 127 x"

definition round64 :: "real \<Rightarrow> flt" where
  "round64 x = round_to 53 (- 1022) 1023 x"

text \<open>The operations, for a format given by its rounding function.\<close>

fun fp_neg :: "flt \<Rightarrow> flt" where
  "fp_neg NaN = NaN"
| "fp_neg MInf = PInf"
| "fp_neg (Fin a) = Fin (- a)"
| "fp_neg PInf = MInf"

fun fp_add :: "(real \<Rightarrow> flt) \<Rightarrow> flt \<Rightarrow> flt \<Rightarrow> flt" where
  "fp_add rnd (Fin a) (Fin b) = rnd (a + b)"
| "fp_add rnd NaN y = NaN"
| "fp_add rnd x NaN = NaN"
| "fp_add rnd PInf MInf = NaN"
| "fp_add rnd MInf PInf = NaN"
| "fp_add rnd PInf y = PInf"
| "fp_add rnd x PInf = PInf"
| "fp_add rnd MInf y = MInf"
| "fp_add rnd x MInf = MInf"

definition fp_sub :: "(real \<Rightarrow> flt) \<Rightarrow> flt \<Rightarrow> flt \<Rightarrow> flt" where
  "fp_sub rnd x y = fp_add rnd x (fp_neg y)"

fun fp_mul :: "(real \<Rightarrow> flt) \<Rightarrow> flt \<Rightarrow> flt \<Rightarrow> flt" where
  "fp_mul rnd (Fin a) (Fin b) = rnd (a * b)"
| "fp_mul rnd NaN y = NaN"
| "fp_mul rnd x NaN = NaN"
| "fp_mul rnd (Fin a) y = (if a = 0 then NaN else if 0 < a then y else fp_neg y)"
| "fp_mul rnd x (Fin b) = (if b = 0 then NaN else if 0 < b then x else fp_neg x)"
| "fp_mul rnd PInf y = y"
| "fp_mul rnd MInf y = fp_neg y"

fun fp_div :: "(real \<Rightarrow> flt) \<Rightarrow> flt \<Rightarrow> flt \<Rightarrow> flt" where
  "fp_div rnd (Fin a) (Fin b) =
     (if b = 0 then (if a = 0 then NaN else if 0 < a then PInf else MInf) else rnd (a / b))"
| "fp_div rnd NaN y = NaN"
| "fp_div rnd x NaN = NaN"
| "fp_div rnd (Fin a) y = Fin 0"
| "fp_div rnd x (Fin b) = (if 0 \<le> b then x else fp_neg x)"
| "fp_div rnd x y = NaN"

fun fp_sqrt :: "(real \<Rightarrow> flt) \<Rightarrow> flt \<Rightarrow> flt" where
  "fp_sqrt rnd (Fin a) = (if a < 0 then NaN else rnd (sqrt a))"
| "fp_sqrt rnd PInf = PInf"
| "fp_sqrt rnd x = NaN"

text \<open>
  The arithmetic of \<^verbatim>\<open>float\<close> written with the usual symbols. A comparison with NaN on
  either side is false.
\<close>

instantiation flt :: "{zero, one, plus, minus, uminus, times, inverse, ord}"
begin

definition zero_flt :: flt where
  "zero_flt = Fin 0"

definition one_flt :: flt where
  "one_flt = Fin 1"

definition plus_flt :: "flt \<Rightarrow> flt \<Rightarrow> flt" where
  "plus_flt x y = fp_add round32 x y"

definition minus_flt :: "flt \<Rightarrow> flt \<Rightarrow> flt" where
  "minus_flt x y = fp_sub round32 x y"

definition uminus_flt :: "flt \<Rightarrow> flt" where
  "uminus_flt x = fp_neg x"

definition times_flt :: "flt \<Rightarrow> flt \<Rightarrow> flt" where
  "times_flt x y = fp_mul round32 x y"

definition divide_flt :: "flt \<Rightarrow> flt \<Rightarrow> flt" where
  "divide_flt x y = fp_div round32 x y"

definition inverse_flt :: "flt \<Rightarrow> flt" where
  "inverse_flt x = fp_div round32 (Fin 1) x"

fun less_flt :: "flt \<Rightarrow> flt \<Rightarrow> bool" where
  "less_flt (Fin a) (Fin b) = (a < b)"
| "less_flt MInf (Fin b) = True"
| "less_flt MInf PInf = True"
| "less_flt (Fin a) PInf = True"
| "less_flt x y = False"

fun less_eq_flt :: "flt \<Rightarrow> flt \<Rightarrow> bool" where
  "less_eq_flt (Fin a) (Fin b) = (a \<le> b)"
| "less_eq_flt NaN y = False"
| "less_eq_flt x NaN = False"
| "less_eq_flt MInf y = True"
| "less_eq_flt x PInf = True"
| "less_eq_flt x y = False"

instance ..

end

text \<open>\<^verbatim>\<open>std::sqrt\<close> on a \<^verbatim>\<open>float\<close>.\<close>

definition sqrt_flt :: "flt \<Rightarrow> flt" where
  "sqrt_flt x = fp_sqrt round32 x"

text \<open>
  \<^verbatim>\<open>std::pow(base, n)\<close> for a \<^verbatim>\<open>float\<close> base and an \<^verbatim>\<open>int\<close> exponent is the \<^verbatim>\<open>double\<close>
  function, applied to both arguments converted to \<^verbatim>\<open>double\<close>; its result is taken as the
  correctly rounded power.
\<close>

definition pow_double :: "flt \<Rightarrow> int \<Rightarrow> flt" where
  "pow_double x n =
     (if n = 0 then Fin 1
      else case x of
        NaN \<Rightarrow> NaN
      | PInf \<Rightarrow> (if 0 < n then PInf else Fin 0)
      | MInf \<Rightarrow> (if 0 < n then (if even n then PInf else MInf) else Fin 0)
      | Fin a \<Rightarrow>
          (if 0 < n then round64 (a ^ nat n)
           else if a = 0 then PInf
           else round64 (1 / a ^ nat (- n))))"

text \<open>Conversions: an \<^verbatim>\<open>int\<close> or an \<^verbatim>\<open>unsigned\<close> to \<^verbatim>\<open>float\<close>, a \<^verbatim>\<open>double\<close> to \<^verbatim>\<open>float\<close>.\<close>

definition float_of_int :: "int \<Rightarrow> flt" where
  "float_of_int k = round32 (of_int k)"

definition float_of_unsigned :: "32 word \<Rightarrow> flt" where
  "float_of_unsigned w = round32 (real (unat w))"

definition float_of_double :: "flt \<Rightarrow> flt" where
  "float_of_double x = (case x of Fin a \<Rightarrow> round32 a | _ \<Rightarrow> x)"

text \<open>
  The cast \<^verbatim>\<open>(unsigned)f\<close> of a \<^verbatim>\<open>float\<close> truncates toward zero. For a value outside the
  range of \<^verbatim>\<open>unsigned\<close>, an infinity or NaN the C++ cast is undefined; the model reduces a
  finite value modulo \<open>2 ^ 32\<close> and gives 0 for the others.
\<close>

definition float_to_unsigned :: "flt \<Rightarrow> 32 word" where
  "float_to_unsigned x =
     (case x of Fin f \<Rightarrow> word_of_int (if 0 \<le> f then \<lfloor>f\<rfloor> else \<lceil>f\<rceil>) | _ \<Rightarrow> 0)"

section \<open>Data model\<close>

text \<open>
  \<^verbatim>\<open>struct Vector3 { float x, y, z; }\<close>. The fields are named \<open>vx\<close>, \<open>vy\<close>, \<open>vz\<close> here
  (and those of \<^verbatim>\<open>Color\<close> \<open>cb\<close>, \<open>cg\<close>, \<open>cr\<close>), so that \<open>x\<close>, \<open>y\<close>, \<open>b\<close>, ... stay free
  for variables.
\<close>

record Vector3 =
  vx :: flt
  vy :: flt
  vz :: flt

text \<open>
  \<^verbatim>\<open>struct Matrix3\<close>: only the three rows are read by the code modelled here
  (\<^verbatim>\<open>MultiplyMV\<close>); the raw buffer and the columns are left out.
\<close>

record Matrix3 =
  line0 :: Vector3
  line1 :: Vector3
  line2 :: Vector3

text \<open>\<^verbatim>\<open>struct Color { unsigned b, g, r; }\<close>: three 32-bit unsigned channels.\<close>

record Color =
  cb :: "32 word"
  cg :: "32 word"
  cr :: "32 word"

record Sphere =
  center :: Vector3
  radius :: flt
  color :: Color
  specular :: int
  reflective :: flt

datatype LightType = AMBIENT | POINT | DIRECTIONAL

record Light =
  ltype :: LightType
  intensity :: flt
  position :: Vector3

definition CANVAS_WIDTH :: int where
  "CANVAS_WIDTH = 600"

definition CANVAS_HEIGHT :: int where
  "CANVAS_HEIGHT = 600"

definition RECURSION_DEPTH :: int where
  "RECURSION_DEPTH = 3"

text \<open>\<^verbatim>\<open>0.001f\<close>: the binary32 number nearest to 1/1000.\<close>

definition EPSILON :: flt where
  "EPSILON = Fin (8589935 / 8589934592)"

definition BACKGROUND_COLOR :: Color where
  "BACKGROUND_COLOR = \<lparr>cb = 0, cg = 0, cr = 0\<rparr>"

section \<open>Vector3 operating routines\<close>

definition DotProduct :: "Vector3 \<Rightarrow> Vector3 \<Rightarrow> flt" where
  "DotProduct v1 v2 = vx v1 * vx v2 + vy v1 * vy v2 + vz v1 * vz v2"

definition Subtract :: "Vector3 \<Rightarrow> Vector3 \<Rightarrow> Vector3" where
  "Subtract v1 v2 = \<lparr>vx = vx v1 - vx v2, vy = vy v1 - vy v2, vz = vz v1 - vz v2\<rparr>"

definition Length :: "Vector3 \<Rightarrow> flt" where
  "Length v = sqrt_flt (DotProduct v v)"

definition Multiply :: "flt \<Rightarrow> Vector3 \<Rightarrow> Vector3" where
  "Multiply k v = \<lparr>vx = k * vx v, vy = k * vy v, vz = k * vz v\<rparr>"

definition Add :: "Vector3 \<Rightarrow> Vector3 \<Rightarrow> Vector3" where
  "Add v1 v2 = \<lparr>vx = vx v1 + vx v2, vy = vy v1 + vy v2, vz = vz v1 + vz v2\<rparr>"

definition MultiplyMV :: "Matrix3 \<Rightarrow> Vector3 \<Rightarrow> Vector3" where
  "MultiplyMV mat vec =
     \<lparr>vx = DotProduct (line0 mat) vec,
      vy = DotProduct (line1 mat) vec,
      vz = DotProduct (line2 mat) vec\<rparr>"

definition ReflectRayDirection :: "Vector3 \<Rightarrow> Vector3 \<Rightarrow> Vector3" where
  "ReflectRayDirection ray normal =
     Subtract (Multiply (Fin 2 * DotProduct ray normal) normal) ray"

section \<open>Intersection test\<close>

definition IntersectRaySphere :: "Vector3 \<Rightarrow> Vector3 \<Rightarrow> Sphere \<Rightarrow> flt \<times> flt" where
  "IntersectRaySphere origin direction sphere =
     (let oc = Subtract origin (center sphere);
          k1 = DotProduct direction direction;
          k2 = Fin 2 * DotProduct oc direction;
          k3 = DotProduct oc oc - radius sphere * radius sphere;
          discriminant = k2 * k2 - Fin 4 * k1 * k3
      in if discriminant < 0 then (PInf, PInf)
         else ((- k2 + sqrt_flt discriminant) / (Fin 2 * k1),
               (- k2 - sqrt_flt discriminant) / (Fin 2 * k1)))"

section \<open>Color operating routines\<close>

definition Multiply_color :: "flt \<Rightarrow> Color \<Rightarrow> Color" where
  "Multiply_color i c =
     \<lparr>cb = float_to_unsigned (i * float_of_unsigned (cb c)),
      cg = float_to_unsigned (i * float_of_unsigned (cg c)),
      cr = float_to_unsigned (i * float_of_unsigned (cr c))\<rparr>"

definition Add_color :: "Color \<Rightarrow> Color \<Rightarrow> Color" where
  "Add_color c1 c2 = \<lparr>cb = cb c1 + cb c2, cg = cg c1 + cg c2, cr = cr c1 + cr c2\<rparr>"

definition Clamp :: "Color \<Rightarrow> Color" where
  "Clamp c =
     \<lparr>cb = min 255 (max 0 (cb c)),
      cg = min 255 (max 0 (cg c)),
      cr = min 255 (max 0 (cr c))\<rparr>"

section \<open>The canvas\<close>

text \<open>
  \<^verbatim>\<open>int\<close> arithmetic is 32-bit; \<open>wrap32\<close> is the two's-complement reduction of a
  mathematical result to that range.
\<close>

definition wrap32 :: "int \<Rightarrow> int" where
  "wrap32 k = (k + 2 ^ 31) mod 2 ^ 32 - 2 ^ 31"

text \<open>
  The macro \<^verbatim>\<open>RGB(r, g, b)\<close> of the Windows headers: the low byte of each argument,
  placed at bits 0, 8 and 16.
\<close>

definition RGB :: "32 word \<Rightarrow> 32 word \<Rightarrow> 32 word \<Rightarrow> 32 word" where
  "RGB r g b = (r AND 255) OR push_bit 8 (g AND 255) OR push_bit 16 (b AND 255)"

text \<open>
  \<^verbatim>\<open>PutPixel\<close> writes the global \<^verbatim>\<open>canvasBuffer\<close>; the model takes the buffer and
  returns the updated one. Inside the guard the offset is below
  \<open>CANVAS_WIDTH * CANVAS_HEIGHT\<close>, the size \<^verbatim>\<open>WinMain\<close> gives the buffer before the first call.
\<close>

definition PutPixel :: "int \<Rightarrow> int \<Rightarrow> Color \<Rightarrow> 32 word list \<Rightarrow> 32 word list" where
  "PutPixel x y c canvasBuffer =
     (let x_r = wrap32 (CANVAS_WIDTH sdiv 2 + x);
          y_r = wrap32 (CANVAS_HEIGHT sdiv 2 - y)
      in if x_r \<ge> 0 \<and> x_r < CANVAS_WIDTH \<and> y_r \<ge> 0 \<and> y_r < CANVAS_HEIGHT
         then let offset = x_r + CANVAS_WIDTH * y_r
              in canvasBuffer[nat offset := RGB (cb c) (cg c) (cr c)]
         else canvasBuffer)"

definition CanvasToViewport :: "int \<Rightarrow> int \<Rightarrow> Vector3" where
  "CanvasToViewport canvas_x canvas_y =
     \<lparr>vx = float_of_int canvas_x * Fin 1 / float_of_int CANVAS_WIDTH,
      vy = float_of_int canvas_y * Fin 1 / float_of_int CANVAS_HEIGHT,
      vz = Fin 1\<rparr>"

text \<open>
  The device coordinate of the pixel \<open>(x, y)\<close> lies on the canvas, and the offset of that
  pixel in the buffer.
\<close>

definition on_canvas :: "int \<Rightarrow> int \<Rightarrow> bool" where
  "on_canvas x y \<longleftrightarrow>
     0 \<le> CANVAS_WIDTH div 2 + x \<and> CANVAS_WIDTH div 2 + x < CANVAS_WIDTH \<and>
     0 \<le> CANVAS_HEIGHT div 2 - y \<and> CANVAS_HEIGHT div 2 - y < CANVAS_HEIGHT"

definition pixel_offset :: "int \<Rightarrow> int \<Rightarrow> nat" where
  "pixel_offset x y = nat ((CANVAS_WIDTH div 2 + x) + CANVAS_WIDTH * (CANVAS_HEIGHT div 2 - y))"

section \<open>Lighting\<close>

text \<open>
  A \<^verbatim>\<open>const Sphere*\<close> into the vector \<^verbatim>\<open>spheres\<close> is the index of the element it points
  to, \<^verbatim>\<open>nullptr\<close> is \<open>None\<close>; the test \<^verbatim>\<open>sphere_tag == &sphere\<close> compares indices.

  The shadow loop of \<^verbatim>\<open>ComputeLighting\<close>, with its two \<^verbatim>\<open>break\<close>s; \<open>i\<close> is the index of
  the first sphere of the rest of the list.
\<close>

fun is_shadow :: "Vector3 \<Rightarrow> Vector3 \<Rightarrow> flt \<Rightarrow> nat option \<Rightarrow> nat \<Rightarrow> Sphere list \<Rightarrow> bool" where
  "is_shadow point vec_l t_max sphere_tag i [] = False"
| "is_shadow point vec_l t_max sphere_tag i (sphere # rest) =
     (if sphere_tag = Some i then is_shadow point vec_l t_max sphere_tag (Suc i) rest
      else let ts = IntersectRaySphere point vec_l sphere
           in if EPSILON < fst ts \<and> fst ts < t_max then True
              else if EPSILON < snd ts \<and> snd ts < t_max then True
              else is_shadow point vec_l t_max sphere_tag (Suc i) rest)"

text \<open>
  The body of the loop over the lights: the accumulator \<^verbatim>\<open>intensity\<close> of the source is
  \<open>acc\<close> here, since \<open>intensity\<close> names the field of \<open>Light\<close>. In the specular line the
  product with the \<^verbatim>\<open>double\<close> power and the sum are \<^verbatim>\<open>double\<close> operations, and the
  assignment converts the sum to \<^verbatim>\<open>float\<close>.
\<close>

definition ComputeLighting_light ::
  "Vector3 \<Rightarrow> Vector3 \<Rightarrow> Vector3 \<Rightarrow> Sphere list \<Rightarrow> int \<Rightarrow> nat option \<Rightarrow> flt \<Rightarrow> flt \<Rightarrow>
   Light \<Rightarrow> flt \<Rightarrow> flt" where
  "ComputeLighting_light point normal view spheres spec sphere_tag length_n length_v light acc =
     (if ltype light = AMBIENT then acc + intensity light
      else
        let (vec_l, t_max) =
              (if ltype light = POINT then (Subtract (position light) point, Fin 1)
               else (position light, PInf))
        in if is_shadow point vec_l t_max sphere_tag 0 spheres then acc
           else
             let n_dot_l = DotProduct normal vec_l;
                 acc1 = (if n_dot_l > 0
                         then acc + intensity light * n_dot_l / (length_n * Length vec_l)
                         else acc)
             in if spec \<ge> 0 then
                  let vec_r = ReflectRayDirection vec_l normal;
                      r_dot_v = DotProduct vec_r view
                  in if r_dot_v > 0
                     then float_of_double
                            (fp_add round64 acc1
                               (fp_mul round64 (intensity light)
                                  (pow_double (r_dot_v / (Length vec_r * length_v)) spec)))
                     else acc1
                else acc1)"

definition ComputeLighting ::
  "Vector3 \<Rightarrow> Vector3 \<Rightarrow> Vector3 \<Rightarrow> Light list \<Rightarrow> Sphere list \<Rightarrow> int \<Rightarrow> nat option \<Rightarrow> flt" where
  "ComputeLighting point normal view lights spheres spec sphere_tag =
     (let length_n = Length normal;
          length_v = Length view
      in fold (ComputeLighting_light point normal view spheres spec sphere_tag length_n length_v)
           lights (Fin 0))"

text \<open>
  The shadow test in the words of the specification: some sphere other than the tagged one
  has a root strictly inside the open interval \<open>(EPSILON, t_max)\<close> on the ray from \<open>point\<close>
  along \<open>vec_l\<close>.
\<close>

definition occluded :: "Vector3 \<Rightarrow> Vector3 \<Rightarrow> flt \<Rightarrow> nat option \<Rightarrow> Sphere list \<Rightarrow> bool" where
  "occluded point vec_l t_max sphere_tag spheres =
     (\<exists>j < length spheres. sphere_tag \<noteq> Some j \<and>
        ((EPSILON < fst (IntersectRaySphere point vec_l (spheres ! j)) \<and>
          fst (IntersectRaySphere point vec_l (spheres ! j)) < t_max) \<or>
         (EPSILON < snd (IntersectRaySphere point vec_l (spheres ! j)) \<and>
          snd (IntersectRaySphere point vec_l (spheres ! j)) < t_max)))"

text \<open>
  The diffuse and the specular step of one light with light vector \<open>L\<close>, in the words of the
  specification: the diffuse term \<open>intensity * dot(normal, L) / (|normal| * |L|)\<close> is added
  when \<open>dot(normal, L) > 0\<close>; the specular term
  \<open>intensity * (dot(R, view) / (|R| * |view|)) ^ spec\<close> is added only for a specular exponent
  \<open>\<ge> 0\<close>, with \<open>R = 2 dot(normal, L) normal - L\<close>, when \<open>dot(R, view) > 0\<close>.
\<close>

definition add_diffuse :: "flt \<Rightarrow> flt \<Rightarrow> Vector3 \<Rightarrow> flt \<Rightarrow> Vector3 \<Rightarrow> flt" where
  "add_diffuse acc light_intensity normal length_n L =
     (if DotProduct normal L > 0
      then acc + light_intensity * DotProduct normal L / (length_n * Length L)
      else acc)"

definition add_specular :: "flt \<Rightarrow> flt \<Rightarrow> Vector3 \<Rightarrow> Vector3 \<Rightarrow> flt \<Rightarrow> int \<Rightarrow> Vector3 \<Rightarrow> flt" where
  "add_specular acc light_intensity normal view length_v spec L =
     (if spec \<ge> 0 then
        let R = Subtract (Multiply (Fin 2 * DotProduct normal L) normal) L;
            rDotV = DotProduct R view
        in if rDotV > 0
           then float_of_double
                  (fp_add round64 acc
                     (fp_mul round64 light_intensity
                        (pow_double (rDotV / (Length R * length_v)) spec)))
           else acc
      else acc)"

text \<open>
  The values an intensity can take without being negative: NaN, \<open>+\<infinity>\<close> and the numbers
  \<open>\<ge> 0\<close>.
\<close>

fun not_negative :: "flt \<Rightarrow> bool" where
  "not_negative NaN = True"
| "not_negative MInf = False"
| "not_negative (Fin a) = (0 \<le> a)"
| "not_negative PInf = True"

section \<open>The recursive ray tracer\<close>

text \<open>
  The loop of \<^verbatim>\<open>TraceRay\<close> over the spheres; the state is the pair of \<^verbatim>\<open>closest_t\<close> and
  \<^verbatim>\<open>closest_sphere\<close>, and \<open>i\<close> is the index of the first sphere of the rest of the list.
\<close>

fun TraceRay_scan ::
  "Vector3 \<Rightarrow> Vector3 \<Rightarrow> flt \<Rightarrow> flt \<Rightarrow> nat option \<Rightarrow> nat \<Rightarrow> Sphere list \<Rightarrow>
   flt \<times> nat option \<Rightarrow> flt \<times> nat option" where
  "TraceRay_scan origin direction min_t max_t sphere_tag i [] st = st"
| "TraceRay_scan origin direction min_t max_t sphere_tag i (sphere # rest)
       (closest_t, closest_sphere) =
     (if sphere_tag = Some i
      then TraceRay_scan origin direction min_t max_t sphere_tag (Suc i) rest
             (closest_t, closest_sphere)
      else
        let ts = IntersectRaySphere origin direction sphere;
            (closest_t1, closest_sphere1) =
              (if fst ts < closest_t \<and> min_t < fst ts \<and> fst ts < max_t
               then (fst ts, Some i) else (closest_t, closest_sphere));
            (closest_t2, closest_sphere2) =
              (if snd ts < closest_t1 \<and> min_t < snd ts \<and> snd ts < max_t
               then (snd ts, Some i) else (closest_t1, closest_sphere1))
        in TraceRay_scan origin direction min_t max_t sphere_tag (Suc i) rest
             (closest_t2, closest_sphere2))"

text \<open>
  \<open>t\<close> is one of the two roots the sphere has on the ray, strictly inside \<open>(min_t, max_t)\<close>.
\<close>

definition valid_root :: "Vector3 \<Rightarrow> Vector3 \<Rightarrow> flt \<Rightarrow> flt \<Rightarrow> Sphere \<Rightarrow> flt \<Rightarrow> bool" where
  "valid_root origin direction min_t max_t sphere t \<longleftrightarrow>
     (t = fst (IntersectRaySphere origin direction sphere) \<or>
      t = snd (IntersectRaySphere origin direction sphere)) \<and> min_t < t \<and> t < max_t"

function TraceRay ::
  "Vector3 \<Rightarrow> Vector3 \<Rightarrow> flt \<Rightarrow> flt \<Rightarrow> Sphere list \<Rightarrow> Light list \<Rightarrow> int \<Rightarrow> nat option \<Rightarrow> Color" where
  "TraceRay origin direction min_t max_t spheres lights depth sphere_tag =
     (let (closest_t, closest_sphere) =
            TraceRay_scan origin direction min_t max_t sphere_tag 0 spheres (PInf, None)
      in case closest_sphere of
           None \<Rightarrow> BACKGROUND_COLOR
         | Some i \<Rightarrow>
             let point = Add origin (Multiply closest_t direction);
                 normal0 = Subtract point (center (spheres ! i));
                 normal = Multiply (Fin 1 / Length normal0) normal0;
                 view = Multiply (Fin (- 1)) direction;
                 light_intensity =
                   ComputeLighting point normal view lights spheres (specular (spheres ! i)) (Some i);
                 local_color = Multiply_color light_intensity (color (spheres ! i))
             in if reflective (spheres ! i) \<le> 0 \<or> depth \<le> 0 then local_color
                else
                  let reflected_ray_direction = ReflectRayDirection view normal;
                      reflected_color =
                        TraceRay point reflected_ray_direction EPSILON PInf spheres lights
                          (depth - 1) (Some i)
                  in Add_color
                       (Multiply_color (Fin 1 - reflective (spheres ! i)) local_color)
                       (Multiply_color (reflective (spheres ! i)) reflected_color))"
  by pat_completeness auto
termination
  by (relation "measure (\<lambda>(origin, direction, min_t, max_t, spheres, lights, depth, sphere_tag).
        nat depth)") auto

declare TraceRay.simps [simp del]

text \<open>
  The function package derives from the equation of \<open>TraceRay\<close> its call relation:
  \<open>TraceRay_rel a' a\<close> holds exactly when the body, run on the arguments \<open>a\<close>, reaches the
  recursive call and makes it with the arguments \<open>a'\<close>. \<open>TraceRay_dom a\<close> says that every
  chain of such calls starting from \<open>a\<close> is finite.
\<close>

text \<open>The depth argument of a tuple of arguments of \<open>TraceRay\<close>.\<close>

definition depth_of ::
  "Vector3 \<times> Vector3 \<times> flt \<times> flt \<times> Sphere list \<times> Light list \<times> int \<times> nat option \<Rightarrow> int" where
  "depth_of a =
     (case a of (origin, direction, min_t, max_t, spheres, lights, depth, sphere_tag) \<Rightarrow> depth)"

section \<open>The frame driver\<close>

text \<open>
  The inner loop of \<^verbatim>\<open>RenderSection\<close> over \<open>x\<close> for the row \<open>y\<close>, and the outer loop over
  the rows from \<open>start_y\<close> up to \<open>end_y\<close>. Both take the canvas buffer and return it updated.
\<close>

function RenderSection_row ::
  "int \<Rightarrow> int \<Rightarrow> Sphere list \<Rightarrow> Light list \<Rightarrow> Matrix3 \<Rightarrow> Vector3 \<Rightarrow> 32 word list \<Rightarrow>
   32 word list" where
  "RenderSection_row x y spheres lights camera_rotation camera_position canvasBuffer =
     (if x < CANVAS_WIDTH sdiv 2 then
        let direction0 = CanvasToViewport x y;
            direction = MultiplyMV camera_rotation direction0;
            col = TraceRay camera_position direction (Fin 1) PInf spheres lights
                    RECURSION_DEPTH None
        in RenderSection_row (x + 1) y spheres lights camera_rotation camera_position
             (PutPixel x y (Clamp col) canvasBuffer)
      else canvasBuffer)"
  by pat_completeness auto
termination
  by (relation "measure (\<lambda>(x, y, spheres, lights, camera_rotation, camera_position, canvasBuffer).
        nat (CANVAS_WIDTH sdiv 2 - x))") auto

declare RenderSection_row.simps [simp del]

function RenderSection ::
  "int \<Rightarrow> int \<Rightarrow> Sphere list \<Rightarrow> Light list \<Rightarrow> Matrix3 \<Rightarrow> Vector3 \<Rightarrow> 32 word list \<Rightarrow>
   32 word list" where
  "RenderSection start_y end_y spheres lights camera_rotation camera_position canvasBuffer =
     (if start_y < end_y then
        RenderSection (start_y + 1) end_y spheres lights camera_rotation camera_position
          (RenderSection_row ((- CANVAS_WIDTH) sdiv 2) start_y spheres lights camera_rotation
             camera_position canvasBuffer)
      else canvasBuffer)"
  by pat_completeness auto
termination
  by (relation "measure (\<lambda>(start_y, end_y, spheres, lights, camera_rotation, camera_position,
        canvasBuffer). nat (end_y - start_y))") auto

declare RenderSection.simps [simp del]

text \<open>
  The bands \<^verbatim>\<open>WinMain\<close> hands to its threads: the pair \<open>(start_y, end_y)\<close> for each
  \<open>i < num_threads\<close>, the last band ending at \<open>CANVAS_HEIGHT / 2\<close>.
\<close>

definition WinMain_sections :: "nat \<Rightarrow> (int \<times> int) list" where
  "WinMain_sections num_threads =
     (let section_width = CANVAS_HEIGHT div int num_threads
      in map (\<lambda>i. (int i * section_width - CANVAS_HEIGHT sdiv 2,
                    if i = num_threads - 1 then CANVAS_HEIGHT sdiv 2
                    else (int i + 1) * section_width - CANVAS_HEIGHT sdiv 2))
           [0 ..< num_threads])"

text \<open>
  Running \<^verbatim>\<open>RenderSection\<close> once for each band of a list, one band after the other in the
  order of the list.
\<close>

definition RenderSections ::
  "(int \<times> int) list \<Rightarrow> Sphere list \<Rightarrow> Light list \<Rightarrow> Matrix3 \<Rightarrow> Vector3 \<Rightarrow> 32 word list \<Rightarrow>
   32 word list" where
  "RenderSections sections spheres lights camera_rotation camera_position canvasBuffer =
     fold (\<lambda>(start_y, end_y). RenderSection start_y end_y spheres lights camera_rotation
             camera_position) sections canvasBuffer"

text \<open>
  The body of the inner loop of \<^verbatim>\<open>RenderSection\<close> as a function of the pixel: the colour
  traced for the pixel \<open>(x, y)\<close> is clamped and written with \<open>PutPixel\<close>. \<open>section_pixels\<close>
  lists the pixels a call visits, in the order of the two loops.
\<close>

definition RenderSection_pixel ::
  "Sphere list \<Rightarrow> Light list \<Rightarrow> Matrix3 \<Rightarrow> Vector3 \<Rightarrow> int \<times> int \<Rightarrow> 32 word list \<Rightarrow> 32 word list" where
  "RenderSection_pixel spheres lights camera_rotation camera_position p canvasBuffer =
     (case p of (x, y) \<Rightarrow>
        PutPixel x y
          (Clamp (TraceRay camera_position (MultiplyMV camera_rotation (CanvasToViewport x y))
                    (Fin 1) PInf spheres lights RECURSION_DEPTH None))
          canvasBuffer)"

definition section_pixels :: "int \<Rightarrow> int \<Rightarrow> (int \<times> int) list" where
  "section_pixels start_y end_y =
     concat (map (\<lambda>y. map (\<lambda>x. (x, y)) [(- CANVAS_WIDTH) sdiv 2 .. CANVAS_WIDTH sdiv 2 - 1])
               [start_y .. end_y - 1])"


section \<open>A small scene for concrete runs\<close>

text \<open>
  One red sphere of radius 1 centred at \<open>(0, 0, 3)\<close>, half reflective and without a specular
  term, seen from the origin: the ray along \<open>+z\<close> meets it at the parameters 4 and 2, the
  ray along \<open>+y\<close> misses it. All the numbers of the scene are binary32 numbers.
\<close>

definition demo_sphere :: Sphere where
  "demo_sphere =
     \<lparr>center = \<lparr>vx = Fin 0, vy = Fin 0, vz = Fin 3\<rparr>, radius = Fin 1,
      color = \<lparr>cb = 0, cg = 0, cr = 255\<rparr>, specular = - 1, reflective = Fin (1 / 2)\<rparr>"

definition demo_origin :: Vector3 where
  "demo_origin = \<lparr>vx = Fin 0, vy = Fin 0, vz = Fin 0\<rparr>"

definition demo_forward :: Vector3 where
  "demo_forward = \<lparr>vx = Fin 0, vy = Fin 0, vz = Fin 1\<rparr>"

definition demo_up :: Vector3 where
  "demo_up = \<lparr>vx = Fin 0, vy = Fin 1, vz = Fin 0\<rparr>"

definition demo_right :: Vector3 where
  "demo_right = \<lparr>vx = Fin 1, vy = Fin 0, vz = Fin 0\<rparr>"

definition demo_ambient :: Light where
  "demo_ambient =
     \<lparr>ltype = AMBIENT, intensity = Fin (1 / 4), position = \<lparr>vx = Fin 0, vy = Fin 0, vz = Fin 0\<rparr>\<rparr>"

definition demo_directional :: Light where
  "demo_directional =
     \<lparr>ltype = DIRECTIONAL, intensity = Fin (1 / 2),
      position = \<lparr>vx = Fin 0, vy = Fin 0, vz = Fin (- 2)\<rparr>\<rparr>"

text \<open>
  Inputs at the edge of the binary32 range, all of them binary32 numbers. On the unit sphere
  at the origin: a ray from \<open>(-2\<^sup>5\<^sup>5, 0, 0)\<close> along \<open>(2\<^sup>-\<^sup>7\<^sup>4, 0, 0)\<close>, for which the subtraction
  in the discriminant cancels and the quotients of the roots overflow; and a ray from
  \<open>(2\<^sup>4\<^sup>0, 0, 0)\<close> along \<open>(2\<^sup>-\<^sup>8\<^sup>0, 0, 0)\<close>, for which \<open>k1\<close> underflows to zero. For the
  lighting: a normal and a directional light of length \<open>2\<^sup>7\<^sup>0\<close>, whose dot product overflows.
\<close>

definition unit_sphere :: Sphere where
  "unit_sphere =
     \<lparr>center = \<lparr>vx = Fin 0, vy = Fin 0, vz = Fin 0\<rparr>, radius = Fin 1,
      color = \<lparr>cb = 0, cg = 0, cr = 255\<rparr>, specular = - 1, reflective = Fin 0\<rparr>"

definition overflow_origin :: Vector3 where
  "overflow_origin = \<lparr>vx = Fin (- (2 ^ 55)), vy = Fin 0, vz = Fin 0\<rparr>"

definition overflow_direction :: Vector3 where
  "overflow_direction = \<lparr>vx = Fin (1 / 2 ^ 74), vy = Fin 0, vz = Fin 0\<rparr>"

definition underflow_origin :: Vector3 where
  "underflow_origin = \<lparr>vx = Fin (2 ^ 40), vy = Fin 0, vz = Fin 0\<rparr>"

definition underflow_direction :: Vector3 where
  "underflow_direction = \<lparr>vx = Fin (1 / 2 ^ 80), vy = Fin 0, vz = Fin 0\<rparr>"

definition big_normal :: Vector3 where
  "big_normal = \<lparr>vx = Fin (2 ^ 70), vy = Fin 0, vz = Fin 0\<rparr>"

definition big_light :: Light where
  "big_light =
     \<lparr>ltype = DIRECTIONAL, intensity = Fin (1 / 2),
      position = \<lparr>vx = Fin (2 ^ 70), vy = Fin 0, vz = Fin 0\<rparr>\<rparr>"

section \<open>Evaluating the arithmetic\<close>

lemmas flt_arith = plus_flt_def minus_flt_def times_flt_def divide_flt_def uminus_flt_def
  zero_flt_def one_flt_def fp_sub_def sqrt_flt_def

text \<open>The numbers met in the runs on the small scene are binary32 numbers: rounding keeps them.\<close>

lemma round32_small:
  "round32 0 = Fin 0" "round32 1 = Fin 1" "round32 2 = Fin 2" "round32 3 = Fin 3"
  "round32 4 = Fin 4" "round32 6 = Fin 6" "round32 8 = Fin 8" "round32 9 = Fin 9"
  "round32 32 = Fin 32" "round32 36 = Fin 36"
  "round32 (- 1) = Fin (- 1)" "round32 (- 2) = Fin (- 2)" "round32 (- 3) = Fin (- 3)"
  "round32 (- 6) = Fin (- 6)" "round32 (- 32) = Fin (- 32)"
  "round32 (1 / 2) = Fin (1 / 2)" "round32 (1 / 4) = Fin (1 / 4)"
  unfolding round32_def round_to_def Let_def
  by (simp_all add: pow2_def log2_up.simps log2_down.simps round_even_def)

lemma flt_less_not_le:
  fixes a b :: flt
  shows "a < b \<Longrightarrow> \<not> b \<le> a"
  by (cases a; cases b) simp_all

lemma flt_not_le_zero:
  fixes r :: flt
  shows "\<not> r \<le> 0 \<longleftrightarrow> 0 < r \<or> r = NaN"
  by (cases r) (auto simp add: zero_flt_def)

section \<open>Properties of the intersection test\<close>

text \<open>
  The ray from \<open>(-2\<^sup>5\<^sup>5, 0, 0)\<close> along \<open>(2\<^sup>-\<^sup>7\<^sup>4, 0, 0)\<close> and the unit sphere:
  \<open>k1 = 2\<^sup>-\<^sup>1\<^sup>4\<^sup>8\<close>, \<open>k2 = -2\<^sup>-\<^sup>1\<^sup>8\<close>, \<open>k3\<close> is \<open>2\<^sup>1\<^sup>1\<^sup>0 - 1\<close> rounded to \<open>2\<^sup>1\<^sup>1\<^sup>0\<close>, the discriminant
  is \<open>2\<^sup>-\<^sup>3\<^sup>6 - 2\<^sup>-\<^sup>3\<^sup>6 = 0\<close>, and both roots are \<open>2\<^sup>-\<^sup>1\<^sup>8 / 2\<^sup>-\<^sup>1\<^sup>4\<^sup>7 = 2\<^sup>1\<^sup>2\<^sup>9\<close>, which is beyond the
  largest binary32 number and rounds to \<open>+\<infinity>\<close>.
\<close>

lemma round32_overflow_run:
  "round32 0 = Fin 0"
  "round32 (- (2 ^ 55)) = Fin (- (2 ^ 55))"
  "round32 (1 / 2 ^ 148) = Fin (1 / 2 ^ 148)"
  "round32 (- (1 / 2 ^ 19)) = Fin (- (1 / 2 ^ 19))"
  "round32 (- (1 / 2 ^ 18)) = Fin (- (1 / 2 ^ 18))"
  "round32 (1 / 2 ^ 18) = Fin (1 / 2 ^ 18)"
  "round32 (2 ^ 110) = Fin (2 ^ 110)"
  "round32 1 = Fin 1"
  "round32 (2 ^ 110 - 1) = Fin (2 ^ 110)"
  "round32 (1 / 2 ^ 36) = Fin (1 / 2 ^ 36)"
  "round32 (1 / 2 ^ 146) = Fin (1 / 2 ^ 146)"
  "round32 (1 / 2 ^ 147) = Fin (1 / 2 ^ 147)"
  "round32 (2 ^ 129) = PInf"
  unfolding round32_def round_to_def Let_def
  by (simp_all add: pow2_def log2_up.simps log2_down.simps round_even_def)

lemma overflow_discriminant:
  "(let oc = Subtract overflow_origin (center unit_sphere);
        k1 = DotProduct overflow_direction overflow_direction;
        k2 = Fin 2 * DotProduct oc overflow_direction;
        k3 = DotProduct oc oc - radius unit_sphere * radius unit_sphere
    in k2 * k2 - Fin 4 * k1 * k3) = Fin 0"
  by (simp add: overflow_origin_def overflow_direction_def unit_sphere_def Subtract_def
      DotProduct_def Let_def flt_arith round32_overflow_run [simplified])

lemma overflow_roots:
  "IntersectRaySphere overflow_origin overflow_direction unit_sphere = (PInf, PInf)"
  by (simp add: IntersectRaySphere_def overflow_origin_def overflow_direction_def
      unit_sphere_def Subtract_def DotProduct_def Let_def flt_arith
      round32_overflow_run [simplified])

text \<open>
  The ray from \<open>(2\<^sup>4\<^sup>0, 0, 0)\<close> along \<open>(2\<^sup>-\<^sup>8\<^sup>0, 0, 0)\<close> and the unit sphere: \<open>k1 = 2\<^sup>-\<^sup>1\<^sup>6\<^sup>0\<close> is
  below half the smallest binary32 number and rounds to 0, \<open>k2 = 2\<^sup>-\<^sup>3\<^sup>9\<close>, the discriminant is
  \<open>2\<^sup>-\<^sup>7\<^sup>8 - 0\<close>, its root \<open>2\<^sup>-\<^sup>3\<^sup>9\<close>; the first root is \<open>0 / 0\<close>, the second \<open>-2\<^sup>-\<^sup>3\<^sup>8 / 0\<close>.
\<close>

lemma round32_underflow_run:
  "round32 0 = Fin 0"
  "round32 (2 ^ 40) = Fin (2 ^ 40)"
  "round32 (1 / 2 ^ 160) = Fin 0"
  "round32 (1 / 2 ^ 40) = Fin (1 / 2 ^ 40)"
  "round32 (1 / 2 ^ 39) = Fin (1 / 2 ^ 39)"
  "round32 (- (1 / 2 ^ 38)) = Fin (- (1 / 2 ^ 38))"
  "round32 (2 ^ 80) = Fin (2 ^ 80)"
  "round32 1 = Fin 1"
  "round32 (2 ^ 80 - 1) = Fin (2 ^ 80)"
  "round32 (1 / 2 ^ 78) = Fin (1 / 2 ^ 78)"
  unfolding round32_def round_to_def Let_def
  by (simp_all add: pow2_def log2_up.simps log2_down.simps round_even_def)

lemma sqrt_underflow_run: "sqrt (1 / 302231454903657293676544) = 1 / 549755813888"
proof -
  have e: "(1 / 302231454903657293676544 :: real) = (1 / 549755813888)\<^sup>2"
    by (simp add: power_divide)
  show ?thesis
    unfolding e by (simp del: power_divide)
qed

lemma underflow_discriminant:
  "(let oc = Subtract underflow_origin (center unit_sphere);
        k1 = DotProduct underflow_direction underflow_direction;
        k2 = Fin 2 * DotProduct oc underflow_direction;
        k3 = DotProduct oc oc - radius unit_sphere * radius unit_sphere
    in k2 * k2 - Fin 4 * k1 * k3) = Fin (1 / 2 ^ 78)"
  by (simp add: underflow_origin_def underflow_direction_def unit_sphere_def Subtract_def
      DotProduct_def Let_def flt_arith round32_underflow_run [simplified])

lemma underflow_roots:
  "IntersectRaySphere underflow_origin underflow_direction unit_sphere = (NaN, MInf)"
  by (simp add: IntersectRaySphere_def underflow_origin_def underflow_direction_def
      unit_sphere_def Subtract_def DotProduct_def Let_def flt_arith
      round32_underflow_run [simplified] sqrt_underflow_run)

text \<open>
  C4, as the claim words it, does not hold: \<open>(+\<infinity>, +\<infinity>)\<close> is returned not only for a negative
  discriminant. For the ray from \<open>(-2\<^sup>5\<^sup>5, 0, 0)\<close> along the non-zero direction
  \<open>(2\<^sup>-\<^sup>7\<^sup>4, 0, 0)\<close> and the unit sphere the discriminant is 0, which is not negative, and the
  function returns \<open>(+\<infinity>, +\<infinity>)\<close>: both quotients overflow.
\<close>

theorem IntersectRaySphere_overflow:
  "(let oc = Subtract overflow_origin (center unit_sphere);
        k1 = DotProduct overflow_direction overflow_direction;
        k2 = Fin 2 * DotProduct oc overflow_direction;
        k3 = DotProduct oc oc - radius unit_sphere * radius unit_sphere
    in k2 * k2 - Fin 4 * k1 * k3) = Fin 0 \<and>
   \<not> (Fin 0 :: flt) < 0 \<and>
   overflow_direction \<noteq> \<lparr>vx = Fin 0, vy = Fin 0, vz = Fin 0\<rparr> \<and>
   IntersectRaySphere overflow_origin overflow_direction unit_sphere = (PInf, PInf)"
proof -
  have "\<not> (Fin 0 :: flt) < 0"
    by (simp add: zero_flt_def)
  moreover have "overflow_direction \<noteq> \<lparr>vx = Fin 0, vy = Fin 0, vz = Fin 0\<rparr>"
    by (simp add: overflow_direction_def)
  ultimately show ?thesis
    using overflow_discriminant overflow_roots by blast
qed

text \<open>
  C4, amended. For every origin, every direction and every sphere, \<open>IntersectRaySphere\<close>
  computes in binary32 arithmetic \<open>oc = origin - center\<close>, \<open>k1 = dot(direction, direction)\<close>,
  \<open>k2 = 2 dot(oc, direction)\<close>, \<open>k3 = dot(oc, oc) - radius\<^sup>2\<close> and
  \<open>discriminant = k2\<^sup>2 - 4 k1 k3\<close>, each dot product summed from left to right. It returns
  \<open>(+\<infinity>, +\<infinity>)\<close> when the discriminant compares below 0 and otherwise the pair of
  \<open>(-k2 + \<surd>discriminant) / (2 k1)\<close> and \<open>(-k2 - \<surd>discriminant) / (2 k1)\<close>; so \<open>(+\<infinity>, +\<infinity>)\<close> is
  returned exactly when the discriminant is negative or both quotients are \<open>+\<infinity>\<close>.
\<close>

theorem IntersectRaySphere_formula:
  "let oc = \<lparr>vx = vx origin - vx (center sphere), vy = vy origin - vy (center sphere),
             vz = vz origin - vz (center sphere)\<rparr>;
       k1 = vx direction * vx direction + vy direction * vy direction
            + vz direction * vz direction;
       k2 = Fin 2 * (vx oc * vx direction + vy oc * vy direction + vz oc * vz direction);
       k3 = vx oc * vx oc + vy oc * vy oc + vz oc * vz oc - radius sphere * radius sphere;
       discriminant = k2 * k2 - Fin 4 * k1 * k3;
       t1 = (- k2 + sqrt_flt discriminant) / (Fin 2 * k1);
       t2 = (- k2 - sqrt_flt discriminant) / (Fin 2 * k1)
   in IntersectRaySphere origin direction sphere =
        (if discriminant < 0 then (PInf, PInf) else (t1, t2)) \<and>
      (IntersectRaySphere origin direction sphere = (PInf, PInf)) =
        (discriminant < 0 \<or> (t1 = PInf \<and> t2 = PInf))"
  by (simp add: IntersectRaySphere_def Subtract_def DotProduct_def Let_def)

theorem IntersectRaySphere_formula_witness:
  "IntersectRaySphere demo_origin demo_forward demo_sphere = (Fin 4, Fin 2) \<and>
   IntersectRaySphere demo_origin demo_up demo_sphere = (PInf, PInf)"
  using IntersectRaySphere_formula [of demo_origin demo_sphere demo_forward]
    IntersectRaySphere_formula [of demo_origin demo_sphere demo_up]
  by (simp add: demo_origin_def demo_forward_def demo_up_def demo_sphere_def Let_def flt_arith
      round32_small)

text \<open>
  C9. The pair \<open>IntersectRaySphere\<close> returns is not ordered by construction: for the ray
  from \<open>(2\<^sup>4\<^sup>0, 0, 0)\<close> along the non-zero direction \<open>(2\<^sup>-\<^sup>8\<^sup>0, 0, 0)\<close> and the unit sphere the
  discriminant is \<open>2\<^sup>-\<^sup>7\<^sup>8 \<ge> 0\<close> and the function returns \<open>(NaN, -\<infinity>)\<close>, for which \<open>t1 \<ge> t2\<close>
  is false. So there are an origin, a non-zero direction and a sphere with a non-negative
  discriminant for which \<open>t1 \<ge> t2\<close> does not hold.
\<close>

theorem roots_unordered:
  "IntersectRaySphere underflow_origin underflow_direction unit_sphere = (NaN, MInf) \<and>
   (\<exists>origin direction sphere.
      direction \<noteq> \<lparr>vx = Fin 0, vy = Fin 0, vz = Fin 0\<rparr> \<and>
      0 \<le> (let oc = Subtract origin (center sphere);
                k1 = DotProduct direction direction;
                k2 = Fin 2 * DotProduct oc direction;
                k3 = DotProduct oc oc - radius sphere * radius sphere
            in k2 * k2 - Fin 4 * k1 * k3) \<and>
      \<not> fst (IntersectRaySphere origin direction sphere)
           \<ge> snd (IntersectRaySphere origin direction sphere))"
proof -
  have "underflow_direction \<noteq> \<lparr>vx = Fin 0, vy = Fin 0, vz = Fin 0\<rparr>"
    by (simp add: underflow_direction_def)
  moreover have "0 \<le> (let oc = Subtract underflow_origin (center unit_sphere);
                k1 = DotProduct underflow_direction underflow_direction;
                k2 = Fin 2 * DotProduct oc underflow_direction;
                k3 = DotProduct oc oc - radius unit_sphere * radius unit_sphere
            in k2 * k2 - Fin 4 * k1 * k3)"
    unfolding underflow_discriminant by (simp add: zero_flt_def)
  moreover have "\<not> fst (IntersectRaySphere underflow_origin underflow_direction unit_sphere)
           \<ge> snd (IntersectRaySphere underflow_origin underflow_direction unit_sphere)"
    by (simp add: underflow_roots)
  ultimately show ?thesis
    using underflow_roots by blast
qed

section \<open>Properties of the recursive ray tracer\<close>

lemma demo_roots:
  "IntersectRaySphere demo_origin demo_forward demo_sphere = (Fin 4, Fin 2)"
  by (simp add: IntersectRaySphere_def demo_origin_def demo_forward_def demo_sphere_def
      Subtract_def DotProduct_def Let_def flt_arith round32_small)

lemma demo_miss:
  "IntersectRaySphere demo_origin demo_up demo_sphere = (PInf, PInf)"
  by (simp add: IntersectRaySphere_def demo_origin_def demo_up_def demo_sphere_def
      Subtract_def DotProduct_def Let_def flt_arith round32_small)

lemma TraceRay_scan_Cons:
  assumes "sphere_tag \<noteq> Some i"
  shows "TraceRay_scan origin direction min_t max_t sphere_tag i (s # ss) (c0, s0) =
         TraceRay_scan origin direction min_t max_t sphere_tag (Suc i) ss
           (let ts = IntersectRaySphere origin direction s;
                st1 = (if fst ts < c0 \<and> min_t < fst ts \<and> fst ts < max_t
                       then (fst ts, Some i) else (c0, s0))
            in if snd ts < fst st1 \<and> min_t < snd ts \<and> snd ts < max_t
               then (snd ts, Some i) else st1)"
  using assms by (auto simp: Let_def)

lemma TraceRay_scan_miss:
  assumes "\<forall>j < length ss. sphere_tag \<noteq> Some (i + j) \<longrightarrow>
      \<not> (min_t < fst (IntersectRaySphere origin direction (ss ! j)) \<and>
         fst (IntersectRaySphere origin direction (ss ! j)) < max_t) \<and>
      \<not> (min_t < snd (IntersectRaySphere origin direction (ss ! j)) \<and>
         snd (IntersectRaySphere origin direction (ss ! j)) < max_t)"
  shows "TraceRay_scan origin direction min_t max_t sphere_tag i ss st = st"
  using assms
proof (induction ss arbitrary: i st)
  case Nil
  then show ?case by simp
next
  case (Cons s ss)
  obtain ct cs where st: "st = (ct, cs)" by (cases st)
  have rest: "\<forall>j < length ss. sphere_tag \<noteq> Some (Suc i + j) \<longrightarrow>
      \<not> (min_t < fst (IntersectRaySphere origin direction (ss ! j)) \<and>
         fst (IntersectRaySphere origin direction (ss ! j)) < max_t) \<and>
      \<not> (min_t < snd (IntersectRaySphere origin direction (ss ! j)) \<and>
         snd (IntersectRaySphere origin direction (ss ! j)) < max_t)"
  proof (intro allI impI)
    fix j assume "j < length ss" "sphere_tag \<noteq> Some (Suc i + j)"
    then show "\<not> (min_t < fst (IntersectRaySphere origin direction (ss ! j)) \<and>
         fst (IntersectRaySphere origin direction (ss ! j)) < max_t) \<and>
      \<not> (min_t < snd (IntersectRaySphere origin direction (ss ! j)) \<and>
         snd (IntersectRaySphere origin direction (ss ! j)) < max_t)"
      using Cons.prems [rule_format, of "Suc j"] by simp
  qed
  have first: "sphere_tag \<noteq> Some i \<Longrightarrow>
      \<not> (min_t < fst (IntersectRaySphere origin direction s) \<and>
         fst (IntersectRaySphere origin direction s) < max_t) \<and>
      \<not> (min_t < snd (IntersectRaySphere origin direction s) \<and>
         snd (IntersectRaySphere origin direction s) < max_t)"
    using Cons.prems [rule_format, of 0] by simp
  show ?case
    using first Cons.IH [OF rest] by (auto simp: st Let_def)
qed

lemma demo_scan:
  "TraceRay_scan demo_origin demo_forward (Fin 1) PInf None 0 [demo_sphere] (PInf, None)
     = (Fin 2, Some 0)"
  by (simp add: demo_roots)

lemma TraceRay_rel_intro:
  assumes "TraceRay_scan origin direction min_t max_t sphere_tag 0 spheres (PInf, None)
             = (closest_t, Some i)"
    and "0 < reflective (spheres ! i)" and "0 < depth"
  shows "TraceRay_rel
           (Add origin (Multiply closest_t direction),
            ReflectRayDirection (Multiply (Fin (- 1)) direction)
              (Multiply
                 (Fin 1 / Length (Subtract (Add origin (Multiply closest_t direction))
                                    (center (spheres ! i))))
                 (Subtract (Add origin (Multiply closest_t direction))
                    (center (spheres ! i)))),
            EPSILON, PInf, spheres, lights, depth - 1, Some i)
           (origin, direction, min_t, max_t, spheres, lights, depth, sphere_tag)"
proof (rule TraceRay_rel.intros)
  show "(closest_t, Some i) =
      TraceRay_scan origin direction min_t max_t sphere_tag 0 spheres (PInf, None)"
    using assms(1) by simp
  show "\<not> (reflective (spheres ! i) \<le> 0 \<or> depth \<le> 0)"
    using assms(3) flt_less_not_le [OF assms(2)] by simp
qed (rule refl)+

lemma demo_point:
  "Add demo_origin (Multiply (Fin 2) demo_forward) = \<lparr>vx = Fin 0, vy = Fin 0, vz = Fin 2\<rparr>"
  by (simp add: demo_origin_def demo_forward_def Add_def Multiply_def flt_arith round32_small)

lemma demo_normal:
  "Multiply (Fin 1 / Length (Subtract \<lparr>vx = Fin 0, vy = Fin 0, vz = Fin 2\<rparr> (center demo_sphere)))
     (Subtract \<lparr>vx = Fin 0, vy = Fin 0, vz = Fin 2\<rparr> (center demo_sphere))
   = \<lparr>vx = Fin 0, vy = Fin 0, vz = Fin (- 1)\<rparr>"
  by (simp add: demo_sphere_def Multiply_def Subtract_def Length_def DotProduct_def flt_arith
      round32_small)

lemma demo_view:
  "Multiply (Fin (- 1)) demo_forward = \<lparr>vx = Fin 0, vy = Fin 0, vz = Fin (- 1)\<rparr>"
  by (simp add: demo_forward_def Multiply_def flt_arith round32_small)

lemma demo_mirror:
  "ReflectRayDirection \<lparr>vx = Fin 0, vy = Fin 0, vz = Fin (- 1)\<rparr>
     \<lparr>vx = Fin 0, vy = Fin 0, vz = Fin (- 1)\<rparr>
   = \<lparr>vx = Fin 0, vy = Fin 0, vz = Fin (- 1)\<rparr>"
  by (simp add: ReflectRayDirection_def Multiply_def Subtract_def DotProduct_def flt_arith
      round32_small)

lemma demo_light:
  "ComputeLighting \<lparr>vx = Fin 0, vy = Fin 0, vz = Fin 2\<rparr> \<lparr>vx = Fin 0, vy = Fin 0, vz = Fin (- 1)\<rparr>
     \<lparr>vx = Fin 0, vy = Fin 0, vz = Fin (- 1)\<rparr> [demo_ambient] [demo_sphere] (specular demo_sphere)
     (Some 0) = Fin (1 / 4)"
  by (simp add: ComputeLighting_def ComputeLighting_light_def demo_ambient_def flt_arith
      round32_small)

lemma demo_call:
  "TraceRay_rel
     (\<lparr>vx = Fin 0, vy = Fin 0, vz = Fin 2\<rparr>, \<lparr>vx = Fin 0, vy = Fin 0, vz = Fin (- 1)\<rparr>, EPSILON, PInf,
      [demo_sphere], [demo_ambient], 0, Some 0)
     (demo_origin, demo_forward, Fin 1, PInf, [demo_sphere], [demo_ambient], 1, None)"
proof -
  have r: "0 < reflective ([demo_sphere] ! 0)"
    by (simp add: demo_sphere_def zero_flt_def)
  have c: "center ([demo_sphere] ! 0) = center demo_sphere"
    by simp
  show ?thesis
    using TraceRay_rel_intro [OF demo_scan r, of 1 "[demo_ambient]"]
    unfolding c demo_point demo_normal demo_view demo_mirror by simp
qed

lemma TraceRay_rel_depth:
  assumes "TraceRay_rel a' a"
  shows "depth_of a' = depth_of a - 1 \<and> 0 < depth_of a"
  using assms by (cases rule: TraceRay_rel.cases) (auto simp: depth_of_def)

lemma TraceRay_rel_chain_depth:
  assumes "(TraceRay_rel ^^ n) a' a" and "0 < n"
  shows "int n \<le> depth_of a"
  using assms
proof (induction n arbitrary: a)
  case 0
  then show ?case by simp
next
  case (Suc n)
  from Suc.prems(1) obtain y where y: "(TraceRay_rel ^^ n) a' y" "TraceRay_rel y a"
    by auto
  show ?case
  proof (cases "n = 0")
    case True
    then show ?thesis using TraceRay_rel_depth [OF y(2)] by simp
  next
    case False
    then have "int n \<le> depth_of y" using Suc.IH [OF y(1)] by simp
    then show ?thesis using TraceRay_rel_depth [OF y(2)] by simp
  qed
qed

lemma TraceRay_total: "TraceRay_dom a"
proof -
  have "All TraceRay_dom"
    by (relation "measure (\<lambda>(origin, direction, min_t, max_t, spheres, lights, depth, sphere_tag).
        nat depth)") auto
  then show ?thesis by (rule spec)
qed

text \<open>
  C1. A ray on which no sphere other than the tagged one has a root strictly inside
  \<open>(min_t, max_t)\<close> is traced to the background colour, whatever the lights, the depth and
  the tagged sphere are.
\<close>

theorem TraceRay_miss_background:
  assumes "\<forall>j < length spheres. sphere_tag \<noteq> Some j \<longrightarrow>
      \<not> (min_t < fst (IntersectRaySphere origin direction (spheres ! j)) \<and>
         fst (IntersectRaySphere origin direction (spheres ! j)) < max_t) \<and>
      \<not> (min_t < snd (IntersectRaySphere origin direction (spheres ! j)) \<and>
         snd (IntersectRaySphere origin direction (spheres ! j)) < max_t)"
  shows "TraceRay origin direction min_t max_t spheres lights depth sphere_tag = BACKGROUND_COLOR"
proof -
  have "TraceRay_scan origin direction min_t max_t sphere_tag 0 spheres (PInf, None)
          = (PInf, None)"
    by (rule TraceRay_scan_miss) (use assms in simp)
  then show ?thesis
    by (simp add: TraceRay.simps)
qed

theorem TraceRay_miss_background_witness:
  "IntersectRaySphere demo_origin demo_up demo_sphere = (PInf, PInf) \<and>
   TraceRay demo_origin demo_up (Fin 1) PInf [demo_sphere] [demo_ambient] 3 None
     = \<lparr>cb = 0, cg = 0, cr = 0\<rparr>"
proof -
  have h: "\<forall>j < length [demo_sphere]. None \<noteq> Some j \<longrightarrow>
      \<not> (Fin 1 < fst (IntersectRaySphere demo_origin demo_up ([demo_sphere] ! j)) \<and>
         fst (IntersectRaySphere demo_origin demo_up ([demo_sphere] ! j)) < PInf) \<and>
      \<not> (Fin 1 < snd (IntersectRaySphere demo_origin demo_up ([demo_sphere] ! j)) \<and>
         snd (IntersectRaySphere demo_origin demo_up ([demo_sphere] ! j)) < PInf)"
    by (simp add: demo_miss)
  show ?thesis
    using demo_miss TraceRay_miss_background [OF h, of "[demo_ambient]" 3]
    by (simp add: BACKGROUND_COLOR_def)
qed

text \<open>
  C2. When the scan finds a closest sphere, that sphere is reflective and the depth budget
  is positive, \<open>TraceRay\<close> makes one recursive call, from the hit point along the reflected
  view direction with \<open>min_t = EPSILON\<close>, \<open>max_t = +\<infinity>\<close>, the depth reduced by one and the hit
  sphere as the excluded one, and returns
  \<open>Add (Multiply (1 - reflective) local_color) (Multiply reflective reflected_color)\<close>.
\<close>

theorem TraceRay_reflection_blend:
  assumes "TraceRay_scan origin direction min_t max_t sphere_tag 0 spheres (PInf, None)
             = (closest_t, Some i)"
    and "reflective (spheres ! i) > 0" and "depth > 0"
  shows "let point = Add origin (Multiply closest_t direction);
             normal = Multiply (Fin 1 / Length (Subtract point (center (spheres ! i))))
                        (Subtract point (center (spheres ! i)));
             view = Multiply (Fin (- 1)) direction;
             local_color = Multiply_color
               (ComputeLighting point normal view lights spheres (specular (spheres ! i)) (Some i))
               (color (spheres ! i));
             reflected_color = TraceRay point (ReflectRayDirection view normal) EPSILON PInf
               spheres lights (depth - 1) (Some i)
         in TraceRay origin direction min_t max_t spheres lights depth sphere_tag =
              Add_color (Multiply_color (Fin 1 - reflective (spheres ! i)) local_color)
                (Multiply_color (reflective (spheres ! i)) reflected_color) \<and>
            TraceRay_rel
              (point, ReflectRayDirection view normal, EPSILON, PInf, spheres, lights,
               depth - 1, Some i)
              (origin, direction, min_t, max_t, spheres, lights, depth, sphere_tag)"
proof -
  have nr: "\<not> reflective (spheres ! i) \<le> 0"
    using assms(2) by (rule flt_less_not_le)
  have "TraceRay origin direction min_t max_t spheres lights depth sphere_tag =
      (let point = Add origin (Multiply closest_t direction);
           normal = Multiply (Fin 1 / Length (Subtract point (center (spheres ! i))))
                      (Subtract point (center (spheres ! i)));
           view = Multiply (Fin (- 1)) direction;
           local_color = Multiply_color
             (ComputeLighting point normal view lights spheres (specular (spheres ! i)) (Some i))
             (color (spheres ! i));
           reflected_color = TraceRay point (ReflectRayDirection view normal) EPSILON PInf
             spheres lights (depth - 1) (Some i)
       in Add_color (Multiply_color (Fin 1 - reflective (spheres ! i)) local_color)
            (Multiply_color (reflective (spheres ! i)) reflected_color))"
    using assms(1,3) nr by (subst TraceRay.simps) (simp add: Let_def)
  then show ?thesis
    using TraceRay_rel_intro [OF assms, of lights] by (simp add: Let_def)
qed

theorem TraceRay_reflection_blend_witness:
  "TraceRay_scan demo_origin demo_forward (Fin 1) PInf None 0 [demo_sphere] (PInf, None)
     = (Fin 2, Some 0) \<and>
   reflective ([demo_sphere] ! 0) > 0 \<and> (1::int) > 0 \<and>
   TraceRay demo_origin demo_forward (Fin 1) PInf [demo_sphere] [demo_ambient] 1 None
     = \<lparr>cb = 0, cg = 0, cr = 31\<rparr>"
proof -
  have r: "reflective ([demo_sphere] ! 0) > 0"
    by (simp add: demo_sphere_def zero_flt_def)
  have d: "(1::int) > 0"
    by simp
  have bg: "TraceRay \<lparr>vx = Fin 0, vy = Fin 0, vz = Fin 2\<rparr> \<lparr>vx = Fin 0, vy = Fin 0, vz = Fin (- 1)\<rparr>
              EPSILON PInf [demo_sphere] [demo_ambient] 0 (Some 0) = \<lparr>cb = 0, cg = 0, cr = 0\<rparr>"
    by (simp add: TraceRay.simps BACKGROUND_COLOR_def)
  have r32: "round32 255 = Fin 255" "round32 63 = Fin 63" "round32 (255 / 4) = Fin (255 / 4)"
    "round32 (63 / 2) = Fin (63 / 2)"
    unfolding round32_def round_to_def Let_def
    by (simp_all add: pow2_def log2_up.simps log2_down.simps round_even_def)
  have blend: "Add_color (Multiply_color (Fin 1 - reflective demo_sphere)
                   (Multiply_color (Fin (1 / 4)) (color demo_sphere)))
                 (Multiply_color (reflective demo_sphere) \<lparr>cb = 0, cg = 0, cr = 0\<rparr>)
               = \<lparr>cb = 0, cg = 0, cr = 31\<rparr>"
    by (simp add: demo_sphere_def Multiply_color_def Add_color_def float_to_unsigned_def
        float_of_unsigned_def flt_arith round32_small r32)
  have "TraceRay demo_origin demo_forward (Fin 1) PInf [demo_sphere] [demo_ambient] 1 None
          = \<lparr>cb = 0, cg = 0, cr = 31\<rparr>"
    using TraceRay_reflection_blend [OF demo_scan r d, of "[demo_ambient]"]
    by (simp add: Let_def demo_point demo_normal demo_view demo_mirror bg demo_light blend)
  then show ?thesis
    using demo_scan r by simp
qed

text \<open>
  C3. When the scan finds a closest sphere and that sphere is not reflective or the depth
  budget is used up, \<open>TraceRay\<close> returns the local colour
  \<open>Multiply light_intensity (color sphere)\<close> as it is (no clamping), and the call makes no
  recursive call.
\<close>

theorem TraceRay_local_color:
  assumes "TraceRay_scan origin direction min_t max_t sphere_tag 0 spheres (PInf, None)
             = (closest_t, Some i)"
    and "reflective (spheres ! i) \<le> 0 \<or> depth \<le> 0"
  shows "let point = Add origin (Multiply closest_t direction);
             normal = Multiply (Fin 1 / Length (Subtract point (center (spheres ! i))))
                        (Subtract point (center (spheres ! i)));
             view = Multiply (Fin (- 1)) direction;
             light_intensity =
               ComputeLighting point normal view lights spheres (specular (spheres ! i)) (Some i)
         in TraceRay origin direction min_t max_t spheres lights depth sphere_tag =
              Multiply_color light_intensity (color (spheres ! i)) \<and>
            (\<nexists>a'. TraceRay_rel a'
                    (origin, direction, min_t, max_t, spheres, lights, depth, sphere_tag))"
proof -
  have "TraceRay origin direction min_t max_t spheres lights depth sphere_tag =
      (let point = Add origin (Multiply closest_t direction);
           normal = Multiply (Fin 1 / Length (Subtract point (center (spheres ! i))))
                      (Subtract point (center (spheres ! i)));
           view = Multiply (Fin (- 1)) direction;
           light_intensity =
             ComputeLighting point normal view lights spheres (specular (spheres ! i)) (Some i)
       in Multiply_color light_intensity (color (spheres ! i)))"
    using assms by (subst TraceRay.simps) (auto simp add: Let_def)
  moreover have "\<nexists>a'. TraceRay_rel a'
      (origin, direction, min_t, max_t, spheres, lights, depth, sphere_tag)"
  proof
    assume "\<exists>a'. TraceRay_rel a'
      (origin, direction, min_t, max_t, spheres, lights, depth, sphere_tag)"
    then obtain a' where "TraceRay_rel a'
      (origin, direction, min_t, max_t, spheres, lights, depth, sphere_tag)" ..
    then show False
      using assms by (cases rule: TraceRay_rel.cases) auto
  qed
  ultimately show ?thesis
    by (simp add: Let_def)
qed

theorem TraceRay_local_color_witness:
  "TraceRay_scan demo_origin demo_forward (Fin 1) PInf None 0 [demo_sphere] (PInf, None)
     = (Fin 2, Some 0) \<and>
   (reflective ([demo_sphere] ! 0) \<le> 0 \<or> (0::int) \<le> 0) \<and>
   TraceRay demo_origin demo_forward (Fin 1) PInf [demo_sphere] [demo_ambient] 0 None
     = \<lparr>cb = 0, cg = 0, cr = 63\<rparr> \<and>
   (\<nexists>a'. TraceRay_rel a'
      (demo_origin, demo_forward, Fin 1, PInf, [demo_sphere], [demo_ambient], 0, None))"
proof -
  have d: "reflective ([demo_sphere] ! 0) \<le> 0 \<or> (0::int) \<le> 0"
    by simp
  have r32: "round32 255 = Fin 255" "round32 (255 / 4) = Fin (255 / 4)"
    unfolding round32_def round_to_def Let_def
    by (simp_all add: pow2_def log2_up.simps log2_down.simps round_even_def)
  have shade: "Multiply_color (Fin (1 / 4)) (color demo_sphere) = \<lparr>cb = 0, cg = 0, cr = 63\<rparr>"
    by (simp add: demo_sphere_def Multiply_color_def float_to_unsigned_def
        float_of_unsigned_def flt_arith round32_small r32)
  show ?thesis
    using demo_scan d TraceRay_local_color [OF demo_scan d, of "[demo_ambient]"]
    by (simp add: Let_def demo_point demo_normal demo_view demo_light shade)
qed

text \<open>
  C6. \<open>TraceRay\<close> terminates on every input. A call reaches its recursive call only with
  a positive depth, after a hit on a sphere that is not non-reflective, and makes it with the
  depth reduced by one; so no chain of nested calls is longer than the depth budget the
  first call was given (and none exists for a budget \<open>\<le> 0\<close>). The test of the code for a
  non-reflective sphere is \<^verbatim>\<open>reflective <= 0\<close>; it fails for a positive reflectivity and
  for NaN.
\<close>

theorem TraceRay_terminates:
  "TraceRay_dom (origin, direction, min_t, max_t, spheres, lights, depth, sphere_tag) \<and>
   (\<forall>origin' direction' min_t' max_t' spheres' lights' depth' sphere_tag'.
      TraceRay_rel (origin', direction', min_t', max_t', spheres', lights', depth', sphere_tag')
        (origin, direction, min_t, max_t, spheres, lights, depth, sphere_tag) \<longrightarrow>
      depth' = depth - 1 \<and> 0 < depth \<and>
      (\<exists>closest_t i.
         TraceRay_scan origin direction min_t max_t sphere_tag 0 spheres (PInf, None)
           = (closest_t, Some i) \<and>
         (0 < reflective (spheres ! i) \<or> reflective (spheres ! i) = NaN))) \<and>
   (\<forall>n a'. (TraceRay_rel ^^ n) a'
        (origin, direction, min_t, max_t, spheres, lights, depth, sphere_tag) \<longrightarrow>
      int n \<le> max 0 depth)"
proof (intro conjI allI impI)
  show "TraceRay_dom (origin, direction, min_t, max_t, spheres, lights, depth, sphere_tag)"
    by (rule TraceRay_total)
next
  fix origin' direction' min_t' max_t' spheres' lights' depth' sphere_tag'
  assume r: "TraceRay_rel
        (origin', direction', min_t', max_t', spheres', lights', depth', sphere_tag')
        (origin, direction, min_t, max_t, spheres, lights, depth, sphere_tag)"
  from r show "depth' = depth - 1"
    by (cases rule: TraceRay_rel.cases) auto
  from r show "0 < depth"
    by (cases rule: TraceRay_rel.cases) auto
  from r show "\<exists>closest_t i.
         TraceRay_scan origin direction min_t max_t sphere_tag 0 spheres (PInf, None)
           = (closest_t, Some i) \<and>
         (0 < reflective (spheres ! i) \<or> reflective (spheres ! i) = NaN)"
    by (cases rule: TraceRay_rel.cases) (simp add: flt_not_le_zero, metis)
next
  fix n a'
  assume c: "(TraceRay_rel ^^ n) a'
        (origin, direction, min_t, max_t, spheres, lights, depth, sphere_tag)"
  show "int n \<le> max 0 depth"
  proof (cases "n = 0")
    case True
    then show ?thesis by simp
  next
    case False
    then have "int n
        \<le> depth_of (origin, direction, min_t, max_t, spheres, lights, depth, sphere_tag)"
      using TraceRay_rel_chain_depth [OF c] by simp
    then show ?thesis by (simp add: depth_of_def)
  qed
qed

theorem TraceRay_terminates_witness:
  "TraceRay_rel
     (\<lparr>vx = Fin 0, vy = Fin 0, vz = Fin 2\<rparr>, \<lparr>vx = Fin 0, vy = Fin 0, vz = Fin (- 1)\<rparr>, EPSILON, PInf,
      [demo_sphere], [demo_ambient], 0, Some 0)
     (demo_origin, demo_forward, Fin 1, PInf, [demo_sphere], [demo_ambient], 1, None) \<and>
   (TraceRay_rel ^^ 1)
     (\<lparr>vx = Fin 0, vy = Fin 0, vz = Fin 2\<rparr>, \<lparr>vx = Fin 0, vy = Fin 0, vz = Fin (- 1)\<rparr>, EPSILON, PInf,
      [demo_sphere], [demo_ambient], 0, Some 0)
     (demo_origin, demo_forward, Fin 1, PInf, [demo_sphere], [demo_ambient], 1, None) \<and>
   TraceRay_dom (demo_origin, demo_forward, Fin 1, PInf, [demo_sphere], [demo_ambient], 1, None) \<and>
   (0::int) = 1 - 1 \<and> int 1 \<le> max 0 1"
proof -
  note t = TraceRay_terminates
    [of demo_origin demo_forward "Fin 1" PInf "[demo_sphere]" "[demo_ambient]" 1 None]
  have chain: "(TraceRay_rel ^^ 1)
     (\<lparr>vx = Fin 0, vy = Fin 0, vz = Fin 2\<rparr>, \<lparr>vx = Fin 0, vy = Fin 0, vz = Fin (- 1)\<rparr>, EPSILON, PInf,
      [demo_sphere], [demo_ambient], 0, Some 0)
     (demo_origin, demo_forward, Fin 1, PInf, [demo_sphere], [demo_ambient], 1, None)"
    using demo_call by (simp add: eq_OO)
  from t have "TraceRay_dom
      (demo_origin, demo_forward, Fin 1, PInf, [demo_sphere], [demo_ambient], 1, None)"
    by (rule conjunct1)
  moreover from t demo_call have "(0::int) = 1 - 1"
    by blast
  moreover from t chain have "int 1 \<le> max 0 1"
    by blast
  ultimately show ?thesis
    using demo_call chain by blast
qed

section \<open>Properties of the lighting evaluator\<close>

lemma is_shadow_iff:
  "is_shadow point vec_l t_max sphere_tag i ss \<longleftrightarrow>
     (\<exists>j < length ss. sphere_tag \<noteq> Some (i + j) \<and>
        ((EPSILON < fst (IntersectRaySphere point vec_l (ss ! j)) \<and>
          fst (IntersectRaySphere point vec_l (ss ! j)) < t_max) \<or>
         (EPSILON < snd (IntersectRaySphere point vec_l (ss ! j)) \<and>
          snd (IntersectRaySphere point vec_l (ss ! j)) < t_max)))"
proof (induction ss arbitrary: i)
  case Nil
  then show ?case by simp
next
  case (Cons s ss)
  have split: "\<And>P. (\<exists>j < length (s # ss). P j) \<longleftrightarrow> P 0 \<or> (\<exists>j < length ss. P (Suc j))"
    by (auto simp: less_Suc_eq_0_disj)
  show ?case
    unfolding split using Cons.IH [of "Suc i"] by (auto simp: Let_def)
qed

lemma fp_mul_commute: "fp_mul rnd x y = fp_mul rnd y x"
  by (cases x; cases y) (simp_all add: mult.commute)

lemma DotProduct_commute: "DotProduct a b = DotProduct b a"
  by (simp add: DotProduct_def times_flt_def fp_mul_commute [of round32 _ "vx b"]
      fp_mul_commute [of round32 _ "vy b"] fp_mul_commute [of round32 _ "vz b"])

lemma lit_contribution:
  assumes "ltype light \<noteq> AMBIENT"
    and "(vec_l, t_max) =
           (if ltype light = POINT then (Subtract (position light) point, Fin 1)
            else (position light, PInf))"
  shows "ComputeLighting_light point normal view spheres spec sphere_tag length_n length_v
           light acc =
         (if occluded point vec_l t_max sphere_tag spheres then acc
          else add_specular (add_diffuse acc (intensity light) normal length_n vec_l)
                 (intensity light) normal view length_v spec vec_l)"
proof -
  have sh: "is_shadow point vec_l t_max sphere_tag 0 spheres
              = occluded point vec_l t_max sphere_tag spheres"
    by (simp add: is_shadow_iff occluded_def)
  have body: "ComputeLighting_light point normal view spheres spec sphere_tag length_n length_v
                light acc =
      (if is_shadow point vec_l t_max sphere_tag 0 spheres then acc
       else
         let n_dot_l = DotProduct normal vec_l;
             acc1 = (if n_dot_l > 0
                     then acc + intensity light * n_dot_l / (length_n * Length vec_l)
                     else acc)
         in if spec \<ge> 0 then
              let vec_r = ReflectRayDirection vec_l normal;
                  r_dot_v = DotProduct vec_r view
              in if r_dot_v > 0
                 then float_of_double
                        (fp_add round64 acc1
                           (fp_mul round64 (intensity light)
                              (pow_double (r_dot_v / (Length vec_r * length_v)) spec)))
                 else acc1
            else acc1)"
    using assms(1) unfolding ComputeLighting_light_def assms(2) [symmetric] by simp
  show ?thesis
    unfolding body sh
    by (simp add: add_diffuse_def add_specular_def Let_def ReflectRayDirection_def
        DotProduct_commute [of vec_l normal])
qed

lemma ComputeLighting_snoc:
  "ComputeLighting point normal view (lights @ [light]) spheres spec sphere_tag =
     ComputeLighting_light point normal view spheres spec sphere_tag (Length normal) (Length view)
       light (ComputeLighting point normal view lights spheres spec sphere_tag)"
  by (simp add: ComputeLighting_def Let_def)

lemma ComputeLighting_light_cases:
  "ComputeLighting_light point normal view spheres spec sphere_tag length_n length_v light acc =
     (case ltype light of
        AMBIENT \<Rightarrow> acc + intensity light
      | POINT \<Rightarrow>
          if occluded point (Subtract (position light) point) (Fin 1) sphere_tag spheres then acc
          else add_specular
                 (add_diffuse acc (intensity light) normal length_n
                    (Subtract (position light) point))
                 (intensity light) normal view length_v spec (Subtract (position light) point)
      | DIRECTIONAL \<Rightarrow>
          if occluded point (position light) PInf sphere_tag spheres then acc
          else add_specular
                 (add_diffuse acc (intensity light) normal length_n (position light))
                 (intensity light) normal view length_v spec (position light))"
proof (cases "ltype light")
  case AMBIENT
  then show ?thesis by (simp add: ComputeLighting_light_def)
next
  case POINT
  then show ?thesis
    using lit_contribution [of light "Subtract (position light) point" "Fin 1" point]
    by simp
next
  case DIRECTIONAL
  then show ?thesis
    using lit_contribution [of light "position light" PInf point]
    by simp
qed

text \<open>Runs of the lighting evaluator on the small scene.\<close>

lemma round32_lighting_run:
  "round32 12 = Fin 12" "round32 16 = Fin 16" "round32 48 = Fin 48" "round32 64 = Fin 64"
  "round32 (- 4) = Fin (- 4)" "round32 (- 8) = Fin (- 8)"
  "round32 (3 / 2) = Fin (3 / 2)" "round32 (3 / 4) = Fin (3 / 4)" "round32 (5 / 4) = Fin (5 / 4)"
  unfolding round32_def round_to_def Let_def
  by (simp_all add: pow2_def log2_up.simps log2_down.simps round_even_def)

lemma round64_lighting_run:
  "round64 1 = Fin 1" "round64 (1 / 2) = Fin (1 / 2)" "round64 (5 / 4) = Fin (5 / 4)"
  unfolding round64_def round_to_def Let_def
  by (simp_all add: pow2_def log2_up.simps log2_down.simps round_even_def)

lemma sqrt_lighting_run: "sqrt 4 = 2" "sqrt 16 = 4"
  using real_sqrt_abs [of 2] real_sqrt_abs [of 4] by simp_all

lemma demo_shadow_roots:
  "IntersectRaySphere \<lparr>vx = Fin 0, vy = Fin 0, vz = Fin 5\<rparr> \<lparr>vx = Fin 0, vy = Fin 0, vz = Fin (- 2)\<rparr>
     demo_sphere = (Fin (3 / 2), Fin (1 / 2))"
  by (simp add: IntersectRaySphere_def demo_sphere_def Subtract_def DotProduct_def Let_def
      flt_arith round32_small round32_lighting_run sqrt_lighting_run)

lemma demo_lighting:
  "ComputeLighting \<lparr>vx = Fin 0, vy = Fin 0, vz = Fin 2\<rparr> \<lparr>vx = Fin 0, vy = Fin 0, vz = Fin (- 1)\<rparr>
     \<lparr>vx = Fin 0, vy = Fin 0, vz = Fin (- 1)\<rparr> [demo_ambient, demo_directional] [demo_sphere] 2
     (Some 0) = Fin (5 / 4)"
  by (simp add: ComputeLighting_def ComputeLighting_light_def demo_ambient_def
      demo_directional_def Length_def DotProduct_def ReflectRayDirection_def Multiply_def
      Subtract_def Let_def pow_double_def float_of_double_def flt_arith round32_small
      round32_lighting_run round64_lighting_run sqrt_lighting_run)

text \<open>
  C5. \<open>ComputeLighting\<close> starts from zero and handles the lights in order. An ambient light
  adds its intensity to what the lights before it gave, whatever the spheres are. A point
  light has the light vector \<open>position - point\<close> and \<open>t_max = 1\<close>, a directional light the
  light vector \<open>position\<close> and \<open>t_max = +\<infinity>\<close>. The shadow loop answers true exactly when a
  sphere other than the tagged one has a root strictly inside \<open>(EPSILON, t_max)\<close> on the ray
  from the point along the light vector; then the light leaves the intensity as it was, and
  otherwise its diffuse and its specular step are made.
\<close>

theorem ComputeLighting_shadow:
  "ComputeLighting point normal view [] spheres spec sphere_tag = Fin 0 \<and>
   is_shadow point vec_l t_max sphere_tag 0 spheres
     = occluded point vec_l t_max sphere_tag spheres \<and>
   ComputeLighting point normal view (lights @ [light]) spheres spec sphere_tag =
     (let acc = ComputeLighting point normal view lights spheres spec sphere_tag
      in case ltype light of
        AMBIENT \<Rightarrow> acc + intensity light
      | POINT \<Rightarrow>
          if occluded point (Subtract (position light) point) (Fin 1) sphere_tag spheres then acc
          else add_specular
                 (add_diffuse acc (intensity light) normal (Length normal)
                    (Subtract (position light) point))
                 (intensity light) normal view (Length view) spec
                 (Subtract (position light) point)
      | DIRECTIONAL \<Rightarrow>
          if occluded point (position light) PInf sphere_tag spheres then acc
          else add_specular
                 (add_diffuse acc (intensity light) normal (Length normal) (position light))
                 (intensity light) normal view (Length view) spec (position light))"
proof (intro conjI)
  show "ComputeLighting point normal view [] spheres spec sphere_tag = Fin 0"
    by (simp add: ComputeLighting_def)
  show "is_shadow point vec_l t_max sphere_tag 0 spheres
          = occluded point vec_l t_max sphere_tag spheres"
    by (simp add: is_shadow_iff occluded_def)
  show "ComputeLighting point normal view (lights @ [light]) spheres spec sphere_tag =
     (let acc = ComputeLighting point normal view lights spheres spec sphere_tag
      in case ltype light of
        AMBIENT \<Rightarrow> acc + intensity light
      | POINT \<Rightarrow>
          if occluded point (Subtract (position light) point) (Fin 1) sphere_tag spheres then acc
          else add_specular
                 (add_diffuse acc (intensity light) normal (Length normal)
                    (Subtract (position light) point))
                 (intensity light) normal view (Length view) spec
                 (Subtract (position light) point)
      | DIRECTIONAL \<Rightarrow>
          if occluded point (position light) PInf sphere_tag spheres then acc
          else add_specular
                 (add_diffuse acc (intensity light) normal (Length normal) (position light))
                 (intensity light) normal view (Length view) spec (position light))"
    unfolding ComputeLighting_snoc Let_def by (rule ComputeLighting_light_cases)
qed

text \<open>
  A concrete run: seen from \<open>(0, 0, 5)\<close>, behind the sphere, the directional light along
  \<open>-z\<close> is occluded by the sphere (roots 3/2 and 1/2) and adds nothing to the ambient
  light before it; with that sphere tagged as the one being shaded it is not occluded.
\<close>

theorem ComputeLighting_shadow_witness:
  "is_shadow \<lparr>vx = Fin 0, vy = Fin 0, vz = Fin 5\<rparr> \<lparr>vx = Fin 0, vy = Fin 0, vz = Fin (- 2)\<rparr> PInf
     None 0 [demo_sphere] \<and>
   occluded \<lparr>vx = Fin 0, vy = Fin 0, vz = Fin 5\<rparr> \<lparr>vx = Fin 0, vy = Fin 0, vz = Fin (- 2)\<rparr> PInf
     None [demo_sphere] \<and>
   ComputeLighting \<lparr>vx = Fin 0, vy = Fin 0, vz = Fin 5\<rparr> \<lparr>vx = Fin 0, vy = Fin 0, vz = Fin (- 1)\<rparr>
     \<lparr>vx = Fin 0, vy = Fin 0, vz = Fin (- 1)\<rparr> [demo_ambient] [demo_sphere] 2 None
     = Fin (1 / 4) \<and>
   ComputeLighting \<lparr>vx = Fin 0, vy = Fin 0, vz = Fin 5\<rparr> \<lparr>vx = Fin 0, vy = Fin 0, vz = Fin (- 1)\<rparr>
     \<lparr>vx = Fin 0, vy = Fin 0, vz = Fin (- 1)\<rparr> [demo_ambient, demo_directional] [demo_sphere] 2
     None = Fin (1 / 4) \<and>
   \<not> occluded \<lparr>vx = Fin 0, vy = Fin 0, vz = Fin 5\<rparr> \<lparr>vx = Fin 0, vy = Fin 0, vz = Fin (- 2)\<rparr> PInf
       (Some 0) [demo_sphere]"
proof -
  have sh: "is_shadow \<lparr>vx = Fin 0, vy = Fin 0, vz = Fin 5\<rparr> \<lparr>vx = Fin 0, vy = Fin 0, vz = Fin (- 2)\<rparr>
              PInf None 0 [demo_sphere]"
    by (simp add: demo_shadow_roots EPSILON_def)
  note c = ComputeLighting_shadow
    [of "\<lparr>vx = Fin 0, vy = Fin 0, vz = Fin 5\<rparr>" "\<lparr>vx = Fin 0, vy = Fin 0, vz = Fin (- 1)\<rparr>"
       "\<lparr>vx = Fin 0, vy = Fin 0, vz = Fin (- 1)\<rparr>" "[demo_sphere]" 2]
  have occ: "occluded \<lparr>vx = Fin 0, vy = Fin 0, vz = Fin 5\<rparr> \<lparr>vx = Fin 0, vy = Fin 0, vz = Fin (- 2)\<rparr>
               PInf None [demo_sphere]"
    using sh c [of None "\<lparr>vx = Fin 0, vy = Fin 0, vz = Fin (- 2)\<rparr>" PInf] by simp
  have amb: "ComputeLighting \<lparr>vx = Fin 0, vy = Fin 0, vz = Fin 5\<rparr>
     \<lparr>vx = Fin 0, vy = Fin 0, vz = Fin (- 1)\<rparr> \<lparr>vx = Fin 0, vy = Fin 0, vz = Fin (- 1)\<rparr>
     [demo_ambient] [demo_sphere] 2 None = Fin (1 / 4)"
    using c [of None "\<lparr>vx = Fin 0, vy = Fin 0, vz = Fin (- 2)\<rparr>" PInf "[]" demo_ambient]
    by (simp add: demo_ambient_def flt_arith round32_small)
  have "ComputeLighting \<lparr>vx = Fin 0, vy = Fin 0, vz = Fin 5\<rparr>
     \<lparr>vx = Fin 0, vy = Fin 0, vz = Fin (- 1)\<rparr> \<lparr>vx = Fin 0, vy = Fin 0, vz = Fin (- 1)\<rparr>
     [demo_ambient, demo_directional] [demo_sphere] 2 None = Fin (1 / 4)"
    using occ amb
      c [of None "\<lparr>vx = Fin 0, vy = Fin 0, vz = Fin (- 2)\<rparr>" PInf "[demo_ambient]" demo_directional]
    by (simp add: demo_directional_def)
  moreover have "\<not> occluded \<lparr>vx = Fin 0, vy = Fin 0, vz = Fin 5\<rparr>
                     \<lparr>vx = Fin 0, vy = Fin 0, vz = Fin (- 2)\<rparr> PInf (Some 0) [demo_sphere]"
    using c [of "Some 0" "\<lparr>vx = Fin 0, vy = Fin 0, vz = Fin (- 2)\<rparr>" PInf] by simp
  ultimately show ?thesis
    using sh occ amb by blast
qed

text \<open>Rounding a number \<open>\<ge> 0\<close> gives a number \<open>\<ge> 0\<close> or \<open>+\<infinity>\<close>.\<close>

lemma not_negative_iff: "not_negative x \<longleftrightarrow> x = NaN \<or> 0 \<le> x"
  by (cases x) (simp_all add: zero_flt_def)

lemma pow2_pos: "0 < pow2 e"
  by (simp add: pow2_def)

lemma round_even_nonneg: "0 \<le> y \<Longrightarrow> 0 \<le> round_even y"
  by (simp add: round_even_def Let_def)

lemma round_to_not_negative:
  assumes "0 \<le> x"
  shows "not_negative (round_to p emin emax x)"
proof (cases "x = 0")
  case True
  then show ?thesis by (simp add: round_to_def)
next
  case False
  with assms have x: "0 < x" by simp
  define e where "e = (if \<bar>x\<bar> < pow2 emin then emin else if 1 \<le> \<bar>x\<bar> then log2_up \<bar>x\<bar>
                       else log2_down \<bar>x\<bar>)"
  define ulp where "ulp = pow2 (e - int p + 1)"
  define v where "v = of_int (round_even (\<bar>x\<bar> / ulp)) * ulp"
  have u: "0 < ulp"
    unfolding ulp_def by (rule pow2_pos)
  have "0 \<le> \<bar>x\<bar> / ulp"
    using u by simp
  then have "0 \<le> round_even (\<bar>x\<bar> / ulp)"
    by (rule round_even_nonneg)
  then have v: "0 \<le> v"
    unfolding v_def using u by simp
  have "round_to p emin emax x = (if pow2 (emax + 1) \<le> v then PInf else Fin v)"
    using x False unfolding round_to_def Let_def v_def ulp_def e_def by simp
  then show ?thesis
    using v by simp
qed

lemma round32_not_negative: "0 \<le> x \<Longrightarrow> not_negative (round32 x)"
  unfolding round32_def by (rule round_to_not_negative)

lemma round64_not_negative: "0 \<le> x \<Longrightarrow> not_negative (round64 x)"
  unfolding round64_def by (rule round_to_not_negative)

text \<open>
  Sums, products, quotients and square roots of values that are not negative are not
  negative: they are \<open>\<ge> 0\<close>, or NaN (\<open>0 \<times> \<infinity>\<close>, \<open>0 / 0\<close>, \<open>\<infinity> / \<infinity>\<close>).
\<close>

lemma fp_add_not_negative:
  assumes "\<And>x. 0 \<le> x \<Longrightarrow> not_negative (rnd x)"
    and "not_negative x" and "not_negative y"
  shows "not_negative (fp_add rnd x y)"
  using assms by (cases x; cases y) simp_all

lemma fp_mul_not_negative:
  assumes "\<And>x. 0 \<le> x \<Longrightarrow> not_negative (rnd x)"
    and "not_negative x" and "not_negative y"
  shows "not_negative (fp_mul rnd x y)"
  using assms by (cases x; cases y) simp_all

lemma fp_div_not_negative:
  assumes "\<And>x. 0 \<le> x \<Longrightarrow> not_negative (rnd x)"
    and "not_negative x" and "not_negative y"
  shows "not_negative (fp_div rnd x y)"
  using assms by (cases x; cases y) simp_all

lemma fp_sqrt_not_negative:
  assumes "\<And>x. 0 \<le> x \<Longrightarrow> not_negative (rnd x)"
  shows "not_negative (fp_sqrt rnd x)"
  using assms by (cases x) simp_all

lemma positive_not_negative:
  fixes x :: flt
  shows "0 < x \<Longrightarrow> not_negative x"
  by (cases x) (simp_all add: zero_flt_def)

lemma nonneg_not_negative:
  fixes x :: flt
  shows "0 \<le> x \<Longrightarrow> not_negative x"
  by (cases x) (simp_all add: zero_flt_def)

lemma plus_not_negative:
  fixes x y :: flt
  shows "not_negative x \<Longrightarrow> not_negative y \<Longrightarrow> not_negative (x + y)"
  unfolding plus_flt_def by (rule fp_add_not_negative [OF round32_not_negative])

lemma times_not_negative:
  fixes x y :: flt
  shows "not_negative x \<Longrightarrow> not_negative y \<Longrightarrow> not_negative (x * y)"
  unfolding times_flt_def by (rule fp_mul_not_negative [OF round32_not_negative])

lemma divide_not_negative:
  fixes x y :: flt
  shows "not_negative x \<Longrightarrow> not_negative y \<Longrightarrow> not_negative (x / y)"
  unfolding divide_flt_def by (rule fp_div_not_negative [OF round32_not_negative])

lemma Length_not_negative: "not_negative (Length v)"
  unfolding Length_def sqrt_flt_def by (rule fp_sqrt_not_negative [OF round32_not_negative])

lemma pow_double_not_negative:
  assumes "not_negative x" and "0 \<le> n"
  shows "not_negative (pow_double x n)"
  using assms by (cases x) (auto simp: pow_double_def intro: round64_not_negative)

lemma float_of_double_not_negative:
  assumes "not_negative x"
  shows "not_negative (float_of_double x)"
  using assms by (cases x) (auto simp: float_of_double_def intro: round32_not_negative)

lemma ComputeLighting_light_not_negative:
  assumes "not_negative acc" and "0 \<le> intensity light"
    and "not_negative length_n" and "not_negative length_v"
  shows "not_negative (ComputeLighting_light point normal view spheres spec sphere_tag
           length_n length_v light acc)"
proof -
  note i = nonneg_not_negative [OF assms(2)]
  have diffuse: "not_negative (acc + intensity light * DotProduct normal vec_l
                                 / (length_n * Length vec_l))"
    if "0 < DotProduct normal vec_l" for vec_l
    by (intro plus_not_negative divide_not_negative times_not_negative assms(1,3) i
        positive_not_negative [OF that] Length_not_negative)
  have acc1: "not_negative (if DotProduct normal vec_l > 0
                 then acc + intensity light * DotProduct normal vec_l / (length_n * Length vec_l)
                 else acc)" for vec_l
    using diffuse [of vec_l] assms(1) by simp
  have specular: "not_negative (float_of_double (fp_add round64 a
           (fp_mul round64 (intensity light) (pow_double (r / (Length vec_r * length_v)) spec))))"
    if "not_negative a" and "0 < r" and "0 \<le> spec" for a r vec_r
    by (intro float_of_double_not_negative fp_add_not_negative [OF round64_not_negative]
        fp_mul_not_negative [OF round64_not_negative] pow_double_not_negative
        divide_not_negative times_not_negative that(1,3) i assms(4)
        positive_not_negative [OF that(2)] Length_not_negative)
  show ?thesis
    unfolding ComputeLighting_light_def Let_def
    using assms(1) i acc1 specular
    by (auto simp: plus_not_negative split: prod.splits)
qed

lemma ComputeLighting_fold_not_negative:
  assumes "\<forall>light \<in> set lights. 0 \<le> intensity light"
    and "not_negative length_n" and "not_negative length_v" and "not_negative acc"
  shows "not_negative (fold (ComputeLighting_light point normal view spheres spec sphere_tag
                      length_n length_v) lights acc)"
  using assms
proof (induction lights arbitrary: acc)
  case Nil
  then show ?case by simp
next
  case (Cons light lights)
  have "not_negative (ComputeLighting_light point normal view spheres spec sphere_tag
                        length_n length_v light acc)"
    using Cons.prems by (intro ComputeLighting_light_not_negative) simp_all
  with Cons.prems show ?case
    by (simp add: Cons.IH)
qed

lemma ComputeLighting_not_negative_aux:
  assumes "\<forall>light \<in> set lights. 0 \<le> intensity light"
  shows "not_negative (ComputeLighting point normal view lights spheres spec sphere_tag)"
  unfolding ComputeLighting_def Let_def
  by (rule ComputeLighting_fold_not_negative [OF assms Length_not_negative Length_not_negative])
    simp

text \<open>
  The normal \<open>(2\<^sup>7\<^sup>0, 0, 0)\<close> and one directional light of intensity 1/2 at \<open>(2\<^sup>7\<^sup>0, 0, 0)\<close>, no
  spheres: \<open>n_dot_l\<close> is \<open>2\<^sup>1\<^sup>4\<^sup>0\<close>, beyond the binary32 range, so \<open>+\<infinity>\<close>; so are the two lengths;
  the diffuse term is \<open>\<infinity> / \<infinity>\<close>, which is NaN, and so is the sum.
\<close>

lemma round32_big_run:
  "round32 0 = Fin 0" "round32 1 = Fin 1" "round32 (2 ^ 140) = PInf"
  unfolding round32_def round_to_def Let_def
  by (simp_all add: pow2_def log2_up.simps log2_down.simps round_even_def)

lemma big_lighting:
  "ComputeLighting demo_origin big_normal demo_right [big_light] [] (- 1) None = NaN"
  by (simp add: ComputeLighting_def ComputeLighting_light_def big_normal_def big_light_def
      demo_right_def Length_def DotProduct_def Let_def flt_arith round32_big_run [simplified])

text \<open>
  C8, as the claim words it, does not hold: with the only light intensity 1/2, which is not
  negative, \<open>ComputeLighting\<close> returns NaN for the normal \<open>(2\<^sup>7\<^sup>0, 0, 0)\<close> and the directional
  light at \<open>(2\<^sup>7\<^sup>0, 0, 0)\<close>, and NaN is not \<open>\<ge> 0\<close>.
\<close>

theorem ComputeLighting_overflow:
  "0 \<le> intensity big_light \<and>
   ComputeLighting demo_origin big_normal demo_right [big_light] [] (- 1) None = NaN \<and>
   \<not> 0 \<le> ComputeLighting demo_origin big_normal demo_right [big_light] [] (- 1) None"
  by (simp add: big_lighting) (simp add: big_light_def zero_flt_def)

text \<open>
  C8, amended. For every input with all light intensities non-negative, \<open>ComputeLighting\<close>
  never returns a negative intensity: the result is \<open>\<ge> 0\<close> (possibly \<open>+\<infinity>\<close>) or it is NaN. The
  accumulator starts at zero, and every light keeps it so: what the loop has computed after
  any number of lights is \<open>\<ge> 0\<close> or NaN.
\<close>

theorem ComputeLighting_not_negative:
  assumes "\<forall>light \<in> set lights. 0 \<le> intensity light"
  shows "(ComputeLighting point normal view lights spheres spec sphere_tag = NaN \<or>
          0 \<le> ComputeLighting point normal view lights spheres spec sphere_tag) \<and>
         (\<forall>n. ComputeLighting point normal view (take n lights) spheres spec sphere_tag = NaN \<or>
              0 \<le> ComputeLighting point normal view (take n lights) spheres spec sphere_tag)"
proof (intro conjI allI)
  show "ComputeLighting point normal view lights spheres spec sphere_tag = NaN \<or>
        0 \<le> ComputeLighting point normal view lights spheres spec sphere_tag"
    using ComputeLighting_not_negative_aux [OF assms] by (simp add: not_negative_iff)
next
  fix n
  have "\<forall>light \<in> set (take n lights). 0 \<le> intensity light"
    using assms by (meson in_set_takeD)
  then show "ComputeLighting point normal view (take n lights) spheres spec sphere_tag = NaN \<or>
        0 \<le> ComputeLighting point normal view (take n lights) spheres spec sphere_tag"
    using ComputeLighting_not_negative_aux by (simp add: not_negative_iff)
qed

theorem ComputeLighting_not_negative_witness:
  "0 \<le> intensity demo_ambient \<and> 0 \<le> intensity demo_directional \<and>
   ComputeLighting \<lparr>vx = Fin 0, vy = Fin 0, vz = Fin 2\<rparr> \<lparr>vx = Fin 0, vy = Fin 0, vz = Fin (- 1)\<rparr>
     \<lparr>vx = Fin 0, vy = Fin 0, vz = Fin (- 1)\<rparr> [demo_ambient, demo_directional] [demo_sphere] 2
     (Some 0) = Fin (5 / 4) \<and>
   0 \<le> ComputeLighting \<lparr>vx = Fin 0, vy = Fin 0, vz = Fin 2\<rparr> \<lparr>vx = Fin 0, vy = Fin 0, vz = Fin (- 1)\<rparr>
     \<lparr>vx = Fin 0, vy = Fin 0, vz = Fin (- 1)\<rparr> [demo_ambient, demo_directional] [demo_sphere] 2
     (Some 0)"
proof -
  have i: "0 \<le> intensity demo_ambient" "0 \<le> intensity demo_directional"
    by (simp_all add: demo_ambient_def demo_directional_def zero_flt_def)
  then have h: "\<forall>light \<in> set [demo_ambient, demo_directional]. 0 \<le> intensity light"
    by simp
  have "ComputeLighting \<lparr>vx = Fin 0, vy = Fin 0, vz = Fin 2\<rparr>
          \<lparr>vx = Fin 0, vy = Fin 0, vz = Fin (- 1)\<rparr> \<lparr>vx = Fin 0, vy = Fin 0, vz = Fin (- 1)\<rparr>
          [demo_ambient, demo_directional] [demo_sphere] 2 (Some 0) = NaN \<or>
        0 \<le> ComputeLighting \<lparr>vx = Fin 0, vy = Fin 0, vz = Fin 2\<rparr>
          \<lparr>vx = Fin 0, vy = Fin 0, vz = Fin (- 1)\<rparr> \<lparr>vx = Fin 0, vy = Fin 0, vz = Fin (- 1)\<rparr>
          [demo_ambient, demo_directional] [demo_sphere] 2 (Some 0)"
    using ComputeLighting_not_negative [OF h] by (rule conjunct1)
  then show ?thesis
    using i by (simp add: demo_lighting)
qed

section \<open>Properties of the canvas\<close>

lemma wrap32_id: "- (2 ^ 31) \<le> k \<Longrightarrow> k < 2 ^ 31 \<Longrightarrow> wrap32 k = k"
  by (simp add: wrap32_def)

lemma wrap32_over:
  assumes "2 ^ 31 \<le> k" and "k < 2 ^ 32"
  shows "wrap32 k = k - 2 ^ 32"
proof -
  have "(k + 2 ^ 31) mod 2 ^ 32 = (k + 2 ^ 31 - 2 ^ 32) mod 2 ^ 32"
    by (simp only: minus_mod_self2)
  also have "\<dots> = k + 2 ^ 31 - 2 ^ 32"
    using assms by (intro mod_pos_pos_trivial) simp_all
  finally show ?thesis
    by (simp add: wrap32_def)
qed

lemma wrap32_in_range:
  assumes "- (2 ^ 31) \<le> k" and "k < 2 ^ 32" and "0 < n" and "n \<le> 2 ^ 31"
  shows "(0 \<le> wrap32 k \<and> wrap32 k < n) \<longleftrightarrow> (0 \<le> k \<and> k < n)"
proof (cases "k < 2 ^ 31")
  case True
  then show ?thesis using assms(1) by (simp add: wrap32_id)
next
  case False
  then have "wrap32 k = k - 2 ^ 32"
    using assms(2) by (intro wrap32_over) simp_all
  then show ?thesis
    using False assms by simp
qed

lemma half_canvas: "CANVAS_WIDTH sdiv 2 = 300" "CANVAS_HEIGHT sdiv 2 = 300"
  "CANVAS_WIDTH div 2 = 300" "CANVAS_HEIGHT div 2 = 300" "(- CANVAS_WIDTH) sdiv 2 = - 300"
  by (simp_all add: CANVAS_WIDTH_def CANVAS_HEIGHT_def signed_divide_int_def)

lemma wrap32_x_r:
  assumes "- (2 ^ 31) \<le> x" and "x < 2 ^ 31"
  shows "(0 \<le> wrap32 (CANVAS_WIDTH sdiv 2 + x) \<and> wrap32 (CANVAS_WIDTH sdiv 2 + x) < CANVAS_WIDTH)
           \<longleftrightarrow> (0 \<le> CANVAS_WIDTH div 2 + x \<and> CANVAS_WIDTH div 2 + x < CANVAS_WIDTH)"
  unfolding half_canvas
  using assms by (intro wrap32_in_range) (simp_all add: CANVAS_WIDTH_def)

lemma wrap32_y_r:
  assumes "- (2 ^ 31) \<le> y" and "y < 2 ^ 31"
  shows "(0 \<le> wrap32 (CANVAS_HEIGHT sdiv 2 - y) \<and> wrap32 (CANVAS_HEIGHT sdiv 2 - y) < CANVAS_HEIGHT)
           \<longleftrightarrow> (0 \<le> CANVAS_HEIGHT div 2 - y \<and> CANVAS_HEIGHT div 2 - y < CANVAS_HEIGHT)"
  unfolding half_canvas
  using assms by (intro wrap32_in_range) (simp_all add: CANVAS_HEIGHT_def)

lemma on_canvas_wrap32:
  assumes "on_canvas x y"
  shows "wrap32 (CANVAS_WIDTH sdiv 2 + x) = CANVAS_WIDTH div 2 + x"
    and "wrap32 (CANVAS_HEIGHT sdiv 2 - y) = CANVAS_HEIGHT div 2 - y"
  using assms unfolding on_canvas_def half_canvas
  by (simp_all add: wrap32_id CANVAS_WIDTH_def CANVAS_HEIGHT_def)

lemma PutPixel_eq:
  assumes "- (2 ^ 31) \<le> x" and "x < 2 ^ 31" and "- (2 ^ 31) \<le> y" and "y < 2 ^ 31"
  shows "PutPixel x y c canvasBuffer =
           (if on_canvas x y then canvasBuffer[pixel_offset x y := RGB (cb c) (cg c) (cr c)]
            else canvasBuffer)"
proof (cases "on_canvas x y")
  case True
  then show ?thesis
    using on_canvas_wrap32 [OF True]
    by (simp add: PutPixel_def Let_def on_canvas_def pixel_offset_def)
next
  case False
  then show ?thesis
    using wrap32_x_r [OF assms(1,2)] wrap32_y_r [OF assms(3,4)]
    by (auto simp add: PutPixel_def Let_def on_canvas_def)
qed

lemma pixel_offset_bound:
  assumes "on_canvas x y"
  shows "pixel_offset x y < nat (CANVAS_WIDTH * CANVAS_HEIGHT)"
  using assms unfolding pixel_offset_def on_canvas_def CANVAS_WIDTH_def CANVAS_HEIGHT_def
  by simp linarith

lemma pixel_offset_inj:
  assumes "on_canvas x y" and "on_canvas x' y'" and "pixel_offset x y = pixel_offset x' y'"
  shows "x = x' \<and> y = y'"
proof -
  have e: "x - 600 * y = x' - 600 * y'"
    using assms unfolding pixel_offset_def on_canvas_def CANVAS_WIDTH_def CANVAS_HEIGHT_def
    by simp linarith
  have r: "- 300 \<le> x" "x < 300" "- 300 \<le> x'" "x' < 300"
    using assms(1,2) unfolding on_canvas_def CANVAS_WIDTH_def by simp_all
  have "y = y'"
  proof (rule ccontr)
    assume "y \<noteq> y'"
    then consider "y + 1 \<le> y'" | "y' + 1 \<le> y"
      by linarith
    then show False
      using e r by cases linarith+
  qed
  with e show ?thesis
    by simp
qed

text \<open>
  C10. For 32-bit \<open>x\<close> and \<open>y\<close> and the canvas buffer of \<open>CANVAS_WIDTH * CANVAS_HEIGHT\<close>
  elements: when the device coordinate \<open>(W/2 + x, H/2 - y)\<close> is outside
  \<open>[0, W) \<times> [0, H)\<close>, \<open>PutPixel\<close> returns the buffer as it was; otherwise the offset
  \<open>(W/2 + x) + W * (H/2 - y)\<close> is inside the buffer, the element there is the new pixel and
  every other element is unchanged.
\<close>

theorem PutPixel_frame:
  assumes "- (2 ^ 31) \<le> x" and "x < 2 ^ 31" and "- (2 ^ 31) \<le> y" and "y < 2 ^ 31"
    and "length canvasBuffer = nat (CANVAS_WIDTH * CANVAS_HEIGHT)"
  shows "if 0 \<le> CANVAS_WIDTH div 2 + x \<and> CANVAS_WIDTH div 2 + x < CANVAS_WIDTH \<and>
            0 \<le> CANVAS_HEIGHT div 2 - y \<and> CANVAS_HEIGHT div 2 - y < CANVAS_HEIGHT
         then let offset = nat ((CANVAS_WIDTH div 2 + x) + CANVAS_WIDTH * (CANVAS_HEIGHT div 2 - y))
              in offset < length canvasBuffer \<and>
                 length (PutPixel x y c canvasBuffer) = length canvasBuffer \<and>
                 PutPixel x y c canvasBuffer ! offset = RGB (cb c) (cg c) (cr c) \<and>
                 (\<forall>k. k \<noteq> offset \<longrightarrow> PutPixel x y c canvasBuffer ! k = canvasBuffer ! k)
         else PutPixel x y c canvasBuffer = canvasBuffer"
proof -
  have c: "(0 \<le> CANVAS_WIDTH div 2 + x \<and> CANVAS_WIDTH div 2 + x < CANVAS_WIDTH \<and>
            0 \<le> CANVAS_HEIGHT div 2 - y \<and> CANVAS_HEIGHT div 2 - y < CANVAS_HEIGHT)
           = on_canvas x y"
    by (simp only: on_canvas_def)
  have off: "nat ((CANVAS_WIDTH div 2 + x) + CANVAS_WIDTH * (CANVAS_HEIGHT div 2 - y))
           = pixel_offset x y"
    by (simp only: pixel_offset_def)
  show ?thesis
    unfolding c off Let_def
  proof (cases "on_canvas x y")
    case True
    have "pixel_offset x y < length canvasBuffer"
      using pixel_offset_bound [OF True] assms(5) by simp
    then show "if on_canvas x y
        then pixel_offset x y < length canvasBuffer \<and>
             length (PutPixel x y c canvasBuffer) = length canvasBuffer \<and>
             PutPixel x y c canvasBuffer ! pixel_offset x y = RGB (cb c) (cg c) (cr c) \<and>
             (\<forall>k. k \<noteq> pixel_offset x y \<longrightarrow>
                  PutPixel x y c canvasBuffer ! k = canvasBuffer ! k)
        else PutPixel x y c canvasBuffer = canvasBuffer"
      using True by (simp add: PutPixel_eq [OF assms(1-4)])
  next
    case False
    then show "if on_canvas x y
        then pixel_offset x y < length canvasBuffer \<and>
             length (PutPixel x y c canvasBuffer) = length canvasBuffer \<and>
             PutPixel x y c canvasBuffer ! pixel_offset x y = RGB (cb c) (cg c) (cr c) \<and>
             (\<forall>k. k \<noteq> pixel_offset x y \<longrightarrow>
                  PutPixel x y c canvasBuffer ! k = canvasBuffer ! k)
        else PutPixel x y c canvasBuffer = canvasBuffer"
      by (simp add: PutPixel_eq [OF assms(1-4)])
  qed
qed

theorem PutPixel_frame_witness:
  "PutPixel 0 0 \<lparr>cb = 1, cg = 2, cr = 3\<rparr> (replicate (nat (CANVAS_WIDTH * CANVAS_HEIGHT)) 0)
     ! 180300 = 197121 \<and>
   PutPixel 0 0 \<lparr>cb = 1, cg = 2, cr = 3\<rparr> (replicate (nat (CANVAS_WIDTH * CANVAS_HEIGHT)) 0)
     ! 180301 = 0 \<and>
   PutPixel 2147483647 0 \<lparr>cb = 1, cg = 2, cr = 3\<rparr> (replicate (nat (CANVAS_WIDTH * CANVAS_HEIGHT)) 0)
     = replicate (nat (CANVAS_WIDTH * CANVAS_HEIGHT)) 0 \<and>
   PutPixel 0 (- 300) \<lparr>cb = 1, cg = 2, cr = 3\<rparr> (replicate (nat (CANVAS_WIDTH * CANVAS_HEIGHT)) 0)
     = replicate (nat (CANVAS_WIDTH * CANVAS_HEIGHT)) 0"
proof -
  have b: "- (2 ^ 31) \<le> (0::int)" "(0::int) < 2 ^ 31" "- (2 ^ 31) \<le> (2147483647::int)"
    "(2147483647::int) < 2 ^ 31" "- (2 ^ 31) \<le> (- 300::int)" "(- 300::int) < 2 ^ 31"
    by simp_all
  have rgb: "RGB 1 2 3 = 197121"
    by (simp add: RGB_def)
  have centre: "PutPixel 0 0 \<lparr>cb = 1, cg = 2, cr = 3\<rparr> canvasBuffer ! 180300 = 197121 \<and>
                PutPixel 0 0 \<lparr>cb = 1, cg = 2, cr = 3\<rparr> canvasBuffer ! 180301
                  = canvasBuffer ! 180301"
    if "length canvasBuffer = nat (CANVAS_WIDTH * CANVAS_HEIGHT)" for canvasBuffer
    using PutPixel_frame [OF b(1,2) b(1,2) that, of "\<lparr>cb = 1, cg = 2, cr = 3\<rparr>"]
    by (simp add: half_canvas CANVAS_WIDTH_def CANVAS_HEIGHT_def rgb)
  have right: "PutPixel 2147483647 0 \<lparr>cb = 1, cg = 2, cr = 3\<rparr> canvasBuffer = canvasBuffer"
    if "length canvasBuffer = nat (CANVAS_WIDTH * CANVAS_HEIGHT)" for canvasBuffer
    using PutPixel_frame [OF b(3,4) b(1,2) that, of "\<lparr>cb = 1, cg = 2, cr = 3\<rparr>"]
    by (simp add: half_canvas CANVAS_WIDTH_def CANVAS_HEIGHT_def)
  have bottom: "PutPixel 0 (- 300) \<lparr>cb = 1, cg = 2, cr = 3\<rparr> canvasBuffer = canvasBuffer"
    if "length canvasBuffer = nat (CANVAS_WIDTH * CANVAS_HEIGHT)" for canvasBuffer
    using PutPixel_frame [OF b(1,2) b(5,6) that, of "\<lparr>cb = 1, cg = 2, cr = 3\<rparr>"]
    by (simp add: half_canvas CANVAS_WIDTH_def CANVAS_HEIGHT_def)
  have len: "length (replicate (nat (CANVAS_WIDTH * CANVAS_HEIGHT)) (0 :: 32 word))
               = nat (CANVAS_WIDTH * CANVAS_HEIGHT)"
    by (rule length_replicate)
  have "180301 < nat (CANVAS_WIDTH * CANVAS_HEIGHT)"
    by (simp add: CANVAS_WIDTH_def CANVAS_HEIGHT_def)
  then have old: "replicate (nat (CANVAS_WIDTH * CANVAS_HEIGHT)) (0 :: 32 word) ! 180301 = 0"
    by (rule nth_replicate)
  show ?thesis
    using centre [OF len] right [OF len] bottom [OF len] old
    by (simp only: simp_thms)
qed

section \<open>Properties of the frame driver\<close>

lemma RenderSection_pixel_pair:
  "RenderSection_pixel spheres lights camera_rotation camera_position (x, y) canvasBuffer =
     PutPixel x y
       (Clamp (TraceRay camera_position (MultiplyMV camera_rotation (CanvasToViewport x y))
                 (Fin 1) PInf spheres lights RECURSION_DEPTH None))
       canvasBuffer"
  by (simp add: RenderSection_pixel_def)

lemma RenderSection_row_fold:
  "RenderSection_row x y spheres lights camera_rotation camera_position canvasBuffer =
     fold (RenderSection_pixel spheres lights camera_rotation camera_position)
       (map (\<lambda>x. (x, y)) [x .. CANVAS_WIDTH sdiv 2 - 1]) canvasBuffer"
proof (induction x y spheres lights camera_rotation camera_position canvasBuffer
    rule: RenderSection_row.induct)
  case (1 x y spheres lights camera_rotation camera_position canvasBuffer)
  show ?case
  proof (cases "x < CANVAS_WIDTH sdiv 2")
    case True
    then have "[x .. CANVAS_WIDTH sdiv 2 - 1] = x # [x + 1 .. CANVAS_WIDTH sdiv 2 - 1]"
      by (intro upto_rec1) simp
    then show ?thesis
      using True "1.IH" [OF True refl refl refl]
      by (subst RenderSection_row.simps) (simp add: RenderSection_pixel_pair Let_def)
  next
    case False
    then show ?thesis
      by (subst RenderSection_row.simps) simp
  qed
qed

lemma RenderSection_fold:
  "RenderSection start_y end_y spheres lights camera_rotation camera_position canvasBuffer =
     fold (RenderSection_pixel spheres lights camera_rotation camera_position)
       (section_pixels start_y end_y) canvasBuffer"
proof (induction start_y end_y spheres lights camera_rotation camera_position canvasBuffer
    rule: RenderSection.induct)
  case (1 start_y end_y spheres lights camera_rotation camera_position canvasBuffer)
  show ?case
  proof (cases "start_y < end_y")
    case True
    then have "[start_y .. end_y - 1] = start_y # [start_y + 1 .. end_y - 1]"
      by (intro upto_rec1) simp
    then have "section_pixels start_y end_y =
        map (\<lambda>x. (x, start_y)) [(- CANVAS_WIDTH) sdiv 2 .. CANVAS_WIDTH sdiv 2 - 1]
          @ section_pixels (start_y + 1) end_y"
      by (simp add: section_pixels_def)
    then show ?thesis
      using True "1.IH" [OF True]
      by (subst RenderSection.simps) (simp add: RenderSection_row_fold)
  next
    case False
    then show ?thesis
      by (subst RenderSection.simps) (simp add: section_pixels_def)
  qed
qed

lemma section_pixels_append:
  assumes "a \<le> b" and "b \<le> c"
  shows "section_pixels a c = section_pixels a b @ section_pixels b c"
proof -
  have "[a .. c - 1] = [a .. b - 1] @ [b .. c - 1]"
  proof (cases "b = c")
    case True
    then show ?thesis by simp
  next
    case False
    then show ?thesis
      using assms by (intro upto_split1) simp_all
  qed
  then show ?thesis
    by (simp add: section_pixels_def)
qed

lemma section_pixels_empty: "b \<le> a \<Longrightarrow> section_pixels a b = []"
  by (simp add: section_pixels_def)

lemma set_section_pixels:
  "set (section_pixels a b) =
     {(- CANVAS_WIDTH) sdiv 2 .. CANVAS_WIDTH sdiv 2 - 1} \<times> {a .. b - 1}"
  by (auto simp: section_pixels_def)

lemma section_pixels_bounds:
  assumes "p \<in> set (section_pixels a b)"
  shows "- 300 \<le> fst p" and "fst p < 300" and "a \<le> snd p" and "snd p < b"
  using assms unfolding set_section_pixels half_canvas by auto

lemma RenderSection_pixel_eq:
  assumes "- (2 ^ 31) \<le> fst p" and "fst p < 2 ^ 31" and "- (2 ^ 31) \<le> snd p" and "snd p < 2 ^ 31"
  shows "\<exists>v. \<forall>canvasBuffer.
           RenderSection_pixel spheres lights camera_rotation camera_position p canvasBuffer =
             (if on_canvas (fst p) (snd p) then canvasBuffer[pixel_offset (fst p) (snd p) := v]
              else canvasBuffer)"
proof (cases p)
  case (Pair x y)
  have b: "- (2 ^ 31) \<le> x" "x < 2 ^ 31" "- (2 ^ 31) \<le> y" "y < 2 ^ 31"
    using assms by (simp_all add: Pair)
  show ?thesis
    unfolding Pair RenderSection_pixel_pair PutPixel_eq [OF b] fst_conv snd_conv
    by (rule exI) (rule allI, rule refl)
qed

lemma RenderSection_pixel_commute:
  assumes "- (2 ^ 31) \<le> fst p" and "fst p < 2 ^ 31" and "- (2 ^ 31) \<le> snd p" and "snd p < 2 ^ 31"
    and "- (2 ^ 31) \<le> fst q" and "fst q < 2 ^ 31" and "- (2 ^ 31) \<le> snd q" and "snd q < 2 ^ 31"
  shows "RenderSection_pixel spheres lights camera_rotation camera_position p
           (RenderSection_pixel spheres lights camera_rotation camera_position q canvasBuffer) =
         RenderSection_pixel spheres lights camera_rotation camera_position q
           (RenderSection_pixel spheres lights camera_rotation camera_position p canvasBuffer)"
proof (cases "p = q")
  case True
  then show ?thesis by simp
next
  case False
  obtain v where v: "\<And>buf.
      RenderSection_pixel spheres lights camera_rotation camera_position p buf =
        (if on_canvas (fst p) (snd p) then buf[pixel_offset (fst p) (snd p) := v] else buf)"
    using RenderSection_pixel_eq [OF assms(1-4)] by blast
  obtain w where w: "\<And>buf.
      RenderSection_pixel spheres lights camera_rotation camera_position q buf =
        (if on_canvas (fst q) (snd q) then buf[pixel_offset (fst q) (snd q) := w] else buf)"
    using RenderSection_pixel_eq [OF assms(5-8)] by blast
  have "pixel_offset (fst p) (snd p) \<noteq> pixel_offset (fst q) (snd q)"
    if "on_canvas (fst p) (snd p)" and "on_canvas (fst q) (snd q)"
    using pixel_offset_inj [OF that] False by (auto simp: prod_eq_iff)
  then show ?thesis
    unfolding v w by (auto intro: list_update_swap)
qed

lemma RenderSections_fold:
  "RenderSections sections spheres lights camera_rotation camera_position canvasBuffer =
     fold (RenderSection_pixel spheres lights camera_rotation camera_position)
       (concat (map (\<lambda>(start_y, end_y). section_pixels start_y end_y) sections)) canvasBuffer"
  unfolding RenderSections_def
  by (induction sections arbitrary: canvasBuffer) (auto simp: RenderSection_fold)

lemma WinMain_sections_prefix:
  assumes "k < num_threads"
  shows "concat (map (\<lambda>(start_y, end_y). section_pixels start_y end_y)
           (map (\<lambda>i. (int i * (CANVAS_HEIGHT div int num_threads) - CANVAS_HEIGHT sdiv 2,
                        if i = num_threads - 1 then CANVAS_HEIGHT sdiv 2
                        else (int i + 1) * (CANVAS_HEIGHT div int num_threads)
                               - CANVAS_HEIGHT sdiv 2))
              [0 ..< k]))
         = section_pixels (- (CANVAS_HEIGHT sdiv 2))
             (int k * (CANVAS_HEIGHT div int num_threads) - CANVAS_HEIGHT sdiv 2)"
  using assms
proof (induction k)
  case 0
  then show ?case by (simp add: section_pixels_empty)
next
  case (Suc k)
  have "0 < int num_threads"
    using Suc.prems by simp
  then have w: "0 \<le> CANVAS_HEIGHT div int num_threads"
    by (simp add: CANVAS_HEIGHT_def pos_imp_zdiv_nonneg_iff)
  then have "0 \<le> int k * (CANVAS_HEIGHT div int num_threads)"
    by simp
  then have le1: "- (CANVAS_HEIGHT sdiv 2)
      \<le> int k * (CANVAS_HEIGHT div int num_threads) - CANVAS_HEIGHT sdiv 2"
    by simp
  have le2: "int k * (CANVAS_HEIGHT div int num_threads) - CANVAS_HEIGHT sdiv 2
      \<le> int (Suc k) * (CANVAS_HEIGHT div int num_threads) - CANVAS_HEIGHT sdiv 2"
    using w by (simp add: algebra_simps)
  have k: "k \<noteq> num_threads - 1" "k < num_threads"
    using Suc.prems by simp_all
  let ?g = "\<lambda>(start_y, end_y). section_pixels start_y end_y"
  let ?band = "\<lambda>i. (int i * (CANVAS_HEIGHT div int num_threads) - CANVAS_HEIGHT sdiv 2,
                      if i = num_threads - 1 then CANVAS_HEIGHT sdiv 2
                      else (int i + 1) * (CANVAS_HEIGHT div int num_threads)
                             - CANVAS_HEIGHT sdiv 2)"
  have last: "?g (?band k) =
      section_pixels (int k * (CANVAS_HEIGHT div int num_threads) - CANVAS_HEIGHT sdiv 2)
        (int (Suc k) * (CANVAS_HEIGHT div int num_threads) - CANVAS_HEIGHT sdiv 2)"
    using k(1) by (simp add: algebra_simps)
  have "concat (map ?g (map ?band [0 ..< Suc k])) = concat (map ?g (map ?band [0 ..< k])) @ ?g (?band k)"
    by simp
  also have "\<dots> =
      section_pixels (- (CANVAS_HEIGHT sdiv 2))
        (int k * (CANVAS_HEIGHT div int num_threads) - CANVAS_HEIGHT sdiv 2)
      @ section_pixels (int k * (CANVAS_HEIGHT div int num_threads) - CANVAS_HEIGHT sdiv 2)
          (int (Suc k) * (CANVAS_HEIGHT div int num_threads) - CANVAS_HEIGHT sdiv 2)"
    using Suc.IH [OF k(2)] last by (simp only:)
  also have "\<dots> = section_pixels (- (CANVAS_HEIGHT sdiv 2))
        (int (Suc k) * (CANVAS_HEIGHT div int num_threads) - CANVAS_HEIGHT sdiv 2)"
    by (rule section_pixels_append [OF le1 le2, symmetric])
  finally show ?case .
qed

lemma WinMain_sections_pixels:
  assumes "0 < num_threads"
  shows "concat (map (\<lambda>(start_y, end_y). section_pixels start_y end_y)
           (WinMain_sections num_threads))
         = section_pixels (- (CANVAS_HEIGHT sdiv 2)) (CANVAS_HEIGHT sdiv 2)"
proof -
  obtain k where k: "num_threads = Suc k"
    using assms by (cases num_threads) simp_all
  have "0 < int num_threads"
    using assms by simp
  then have w: "0 \<le> CANVAS_HEIGHT div int num_threads"
    by (simp add: CANVAS_HEIGHT_def pos_imp_zdiv_nonneg_iff)
  have "int num_threads * (CANVAS_HEIGHT div int num_threads) + CANVAS_HEIGHT mod int num_threads
      = CANVAS_HEIGHT"
    by (rule mult_div_mod_eq)
  moreover have "0 \<le> CANVAS_HEIGHT mod int num_threads"
    using \<open>0 < int num_threads\<close> by (rule pos_mod_sign)
  ultimately have "int num_threads * (CANVAS_HEIGHT div int num_threads) \<le> CANVAS_HEIGHT"
    by linarith
  moreover have "int k * (CANVAS_HEIGHT div int num_threads)
      \<le> int num_threads * (CANVAS_HEIGHT div int num_threads)"
    using w k by (intro mult_right_mono) simp_all
  ultimately have "int k * (CANVAS_HEIGHT div int num_threads) \<le> CANVAS_HEIGHT"
    by linarith
  then have le2: "int k * (CANVAS_HEIGHT div int num_threads) - CANVAS_HEIGHT sdiv 2
      \<le> CANVAS_HEIGHT sdiv 2"
    by (simp add: half_canvas CANVAS_HEIGHT_def)
  have "0 \<le> int k * (CANVAS_HEIGHT div int num_threads)"
    using w by simp
  then have le1: "- (CANVAS_HEIGHT sdiv 2)
      \<le> int k * (CANVAS_HEIGHT div int num_threads) - CANVAS_HEIGHT sdiv 2"
    by simp
  have less: "k < num_threads"
    using k by simp
  let ?g = "\<lambda>(start_y, end_y). section_pixels start_y end_y"
  let ?band = "\<lambda>i. (int i * (CANVAS_HEIGHT div int num_threads) - CANVAS_HEIGHT sdiv 2,
                      if i = num_threads - 1 then CANVAS_HEIGHT sdiv 2
                      else (int i + 1) * (CANVAS_HEIGHT div int num_threads)
                             - CANVAS_HEIGHT sdiv 2)"
  have upt: "[0 ..< num_threads] = [0 ..< k] @ [k]"
    using k by simp
  have last: "?g (?band k) =
      section_pixels (int k * (CANVAS_HEIGHT div int num_threads) - CANVAS_HEIGHT sdiv 2)
        (CANVAS_HEIGHT sdiv 2)"
    using k by simp
  have "concat (map ?g (WinMain_sections num_threads))
      = concat (map ?g (map ?band [0 ..< num_threads]))"
    by (simp only: WinMain_sections_def Let_def)
  also have "\<dots> = concat (map ?g (map ?band [0 ..< k])) @ ?g (?band k)"
    unfolding upt by simp
  also have "\<dots> =
      section_pixels (- (CANVAS_HEIGHT sdiv 2))
        (int k * (CANVAS_HEIGHT div int num_threads) - CANVAS_HEIGHT sdiv 2)
      @ section_pixels (int k * (CANVAS_HEIGHT div int num_threads) - CANVAS_HEIGHT sdiv 2)
          (CANVAS_HEIGHT sdiv 2)"
    using WinMain_sections_prefix [OF less] last by (simp only:)
  also have "\<dots> = section_pixels (- (CANVAS_HEIGHT sdiv 2)) (CANVAS_HEIGHT sdiv 2)"
    by (rule section_pixels_append [OF le1 le2, symmetric])
  finally show ?thesis .
qed

lemma mset_concat_sections:
  assumes "mset xs = mset ys"
  shows "mset (concat (map g xs)) = mset (concat (map g ys))"
proof -
  have "mset (concat (map g zs)) = sum_mset (image_mset (\<lambda>z. mset (g z)) (mset zs))" for zs
    by (induction zs) simp_all
  then show ?thesis
    using assms by simp
qed

text \<open>
  C7. Take the bands \<^verbatim>\<open>WinMain\<close> computes for \<open>num_threads\<close> workers, in any order, and run
  \<open>RenderSection\<close> once for each: the canvas buffer that results is the buffer of one run of
  \<open>RenderSection\<close> over all rows, from \<open>- H/2\<close> to \<open>H/2\<close>. This holds for every positive number
  of workers, in particular for those that divide the canvas height evenly.
\<close>

theorem RenderSections_any_order:
  assumes "0 < num_threads"
    and "mset sections = mset (WinMain_sections num_threads)"
  shows "RenderSections sections spheres lights camera_rotation camera_position canvasBuffer =
         RenderSection (- (CANVAS_HEIGHT sdiv 2)) (CANVAS_HEIGHT sdiv 2) spheres lights
           camera_rotation camera_position canvasBuffer"
proof -
  let ?g = "\<lambda>(start_y, end_y). section_pixels start_y end_y"
  let ?paint = "RenderSection_pixel spheres lights camera_rotation camera_position"
  have m: "mset (concat (map ?g sections)) = mset (concat (map ?g (WinMain_sections num_threads)))"
    by (rule mset_concat_sections) (rule assms(2))
  have all: "concat (map ?g (WinMain_sections num_threads))
      = section_pixels (- (CANVAS_HEIGHT sdiv 2)) (CANVAS_HEIGHT sdiv 2)"
    by (rule WinMain_sections_pixels) (rule assms(1))
  have range: "- (2 ^ 31) \<le> fst p \<and> fst p < 2 ^ 31 \<and> - (2 ^ 31) \<le> snd p \<and> snd p < 2 ^ 31"
    if "p \<in> set (concat (map ?g sections))" for p
  proof -
    have "set (concat (map ?g sections))
        = set (section_pixels (- (CANVAS_HEIGHT sdiv 2)) (CANVAS_HEIGHT sdiv 2))"
      using mset_eq_setD [OF m] by (simp only: all)
    with that have "p \<in> set (section_pixels (- (CANVAS_HEIGHT sdiv 2)) (CANVAS_HEIGHT sdiv 2))"
      by blast
    from section_pixels_bounds [OF this] show ?thesis
      by (simp add: half_canvas)
  qed
  have "fold ?paint (concat (map ?g sections)) canvasBuffer
      = fold ?paint (concat (map ?g (WinMain_sections num_threads))) canvasBuffer"
  proof (rule fold_permuted_eq [where P = "\<lambda>_. True"])
    show "mset (concat (map ?g sections)) = mset (concat (map ?g (WinMain_sections num_threads)))"
      by (rule m)
    show "?paint p (?paint q z) = ?paint q (?paint p z)"
      if "p \<in> set (concat (map ?g sections))" and "q \<in> set (concat (map ?g sections))"
      for p q z
      using range [OF that(1)] range [OF that(2)]
      by (intro RenderSection_pixel_commute) simp_all
  qed simp_all
  then show ?thesis
    by (simp only: RenderSections_fold RenderSection_fold all)
qed

theorem RenderSections_any_order_witness:
  "WinMain_sections 3 = [(- 300, - 100), (- 100, 100), (100, 300)] \<and>
   RenderSections [(100, 300), (- 300, - 100), (- 100, 100)] [demo_sphere] [demo_ambient]
     \<lparr>line0 = \<lparr>vx = 1, vy = 0, vz = 0\<rparr>, line1 = \<lparr>vx = 0, vy = 1, vz = 0\<rparr>,
      line2 = \<lparr>vx = 0, vy = 0, vz = 1\<rparr>\<rparr>
     demo_origin (replicate (nat (CANVAS_WIDTH * CANVAS_HEIGHT)) 0) =
   RenderSection (- (CANVAS_HEIGHT sdiv 2)) (CANVAS_HEIGHT sdiv 2) [demo_sphere] [demo_ambient]
     \<lparr>line0 = \<lparr>vx = 1, vy = 0, vz = 0\<rparr>, line1 = \<lparr>vx = 0, vy = 1, vz = 0\<rparr>,
      line2 = \<lparr>vx = 0, vy = 0, vz = 1\<rparr>\<rparr>
     demo_origin (replicate (nat (CANVAS_WIDTH * CANVAS_HEIGHT)) 0)"
proof -
  have "[0 ..< 3] = [0, 1, 2]"
    by (simp add: upt_rec)
  then have s: "WinMain_sections 3 = [(- 300, - 100), (- 100, 100), (100, 300)]"
    by (simp add: WinMain_sections_def half_canvas CANVAS_HEIGHT_def)
  have n: "0 < (3::nat)"
    by simp
  have m: "mset [(100, 300), (- 300, - 100), (- 100, 100)] = mset (WinMain_sections 3)"
    unfolding s by simp
  show ?thesis
    using s RenderSections_any_order [OF n m] by blast
qed

end
